theory Spec2Isabelle
  imports Main "HOL-Library.AList"
begin

section \<open>Python values shared by the modules\<close>

text \<open>
  Python's \<open>str\<close> is modelled by \<open>string\<close>: the UTF-8 bytes of the text. Every
  literal of the sources is ASCII, for which bytes and code points coincide.
\<close>

datatype py_error =
    NameError string
  | TypeError string
  | UnicodeDecodeError
  | BadParameter string
  | CalledProcessError int "string list" string string
  | OSError string
  | Raised string

text \<open>\<open>str(n)\<close> and \<open>'{}'.format(n)\<close> of an integer: its decimal digits.\<close>

definition digit_char :: "nat \<Rightarrow> char" where
  "digit_char d = char_of (48 + d)"

fun show_nat :: "nat \<Rightarrow> string" where
  "show_nat n = (if n < 10 then [digit_char n] else show_nat (n div 10) @ [digit_char (n mod 10)])"

declare show_nat.simps [simp del]

definition show_int :: "int \<Rightarrow> string" where
  "show_int i = (if i < 0 then CHR ''-'' # show_nat (nat (- i)) else show_nat (nat i))"

section \<open>The vendored VirtualBox errors (\<open>vertigo_py/error.py\<close>)\<close>

datatype py_val = PyStr string | PyBytes string | PyNone | PyClass string

text \<open>The error object handed to the constructors: a \<open>CalledProcessError\<close>.\<close>

record process_error =
  pe_returncode :: int
  pe_output :: py_val

text \<open>The names bound at the top level of the module, in source order.\<close>

definition module_globals :: "string list" where
  "module_globals =
     [''CommandError'', ''UnknownOptionError'', ''UnknownVMError'',
      ''RegistrationError'', ''CloseMediumError'', ''NoMediumError'']"

text \<open>The builtins the module refers to; Python has no builtin called \<open>filename\<close>.\<close>

definition module_builtins :: "string list" where
  "module_builtins = [''Exception'', ''str'']"

text \<open>
  Loading a name inside a method body: the locals of the frame, then the globals of the
  module, then the builtins, else \<open>NameError\<close>.
\<close>

definition load_name :: "(string \<times> py_val) list \<Rightarrow> string \<Rightarrow> py_error + py_val" where
  "load_name locals n =
     (case map_of locals n of
        Some v \<Rightarrow> Inr v
      | None \<Rightarrow>
          if n \<in> set module_globals \<or> n \<in> set module_builtins then Inr (PyClass n)
          else Inl (NameError n))"

text \<open>\<open>'literal' + v\<close>: only a \<open>str\<close> can be appended to a \<open>str\<close>.\<close>

definition str_add :: "string \<Rightarrow> py_val \<Rightarrow> py_error + string" where
  "str_add s v = (case v of PyStr t \<Rightarrow> Inr (s @ t) | _ \<Rightarrow> Inl (TypeError ''can only concatenate str''))"

text \<open>What an f-string field prints for a value.\<close>

fun format_val :: "py_val \<Rightarrow> string" where
  "format_val (PyStr s) = s"
| "format_val (PyBytes b) = ''b'' @ [CHR 0x27] @ b @ [CHR 0x27]"
| "format_val PyNone = ''None''"
| "format_val (PyClass c) = ''<class '' @ [CHR 0x27] @ c @ [CHR 0x27] @ ''>''"

record registration_error =
  re_filename :: py_val
  re_code :: string
  re_msg :: py_val

definition RegistrationError_init :: "py_val \<Rightarrow> process_error \<Rightarrow> registration_error" where
  "RegistrationError_init fname error =
     \<lparr>re_filename = fname, re_code = show_int (pe_returncode error), re_msg = pe_output error\<rparr>"

text \<open>
  \<open>__str__\<close> has one local, \<open>self\<close>, when its first line runs; the line reads the
  bare name \<open>filename\<close>, not \<open>self.filename\<close>.
\<close>

definition RegistrationError_str :: "registration_error \<Rightarrow> py_error + string" where
  "RegistrationError_str self =
     (case load_name [(''self'', PyClass ''RegistrationError'')] ''filename'' of
        Inl e \<Rightarrow> Inl e
      | Inr fname \<Rightarrow>
          (let filerr = ''Unable to register VM from file '' @ format_val fname @ [CHR 0x0A] in
           case str_add (''Returned message was:'' @ [CHR 0x0A]) (re_msg self) of
             Inl e \<Rightarrow> Inl e
           | Inr errmsg \<Rightarrow> Inr (filerr @ errmsg)))"

text \<open>The sibling \<open>CommandError\<close> reads its attributes through \<open>self\<close>.\<close>

record command_error =
  ce_cmd :: string
  ce_code :: string
  ce_msg :: py_val

fun join_space :: "string list \<Rightarrow> string" where
  "join_space [] = []"
| "join_space [x] = x"
| "join_space (x # y # ys) = x @ '' '' @ join_space (y # ys)"

definition CommandError_init :: "string list \<Rightarrow> process_error \<Rightarrow> command_error" where
  "CommandError_init c error =
     \<lparr>ce_cmd = join_space c, ce_code = show_int (pe_returncode error), ce_msg = pe_output error\<rparr>"

definition CommandError_str :: "command_error \<Rightarrow> py_error + string" where
  "CommandError_str self =
     str_add (''Command '' @ ce_cmd self @ '' failed with code '' @ ce_code self
              @ '' and message:'' @ [CHR 0x0A]) (ce_msg self)"
section \<open>The vendored \<open>etcdctl\<close> wrapper (\<open>dcos_test_utils/etcd.py\<close>)\<close>

definition ETCDCTL_PATH :: string where
  "ETCDCTL_PATH = ''/opt/mesosphere/bin/etcdctl''"

definition ETCD_ENDPOINTS :: string where
  "ETCD_ENDPOINTS = ''127.0.0.1:2379''"

definition CA_CERT :: string where
  "CA_CERT = ''/run/dcos/pki/CA/ca-bundle.crt''"

text \<open>
  \<open>os.environ\<close>: the variables of the process, by name. \<open>os.getenv(k, d)\<close> is the
  value of \<open>k\<close>, or \<open>d\<close> when \<open>k\<close> is not set.
\<close>

type_synonym environ = "(string \<times> string) list"

definition getenv :: "environ \<Rightarrow> string \<Rightarrow> string \<Rightarrow> string" where
  "getenv E k d = (case map_of E k of None \<Rightarrow> d | Some v \<Rightarrow> v)"

text \<open>
  \<open>str.lower()\<close>: the letters \<open>A\<close> to \<open>Z\<close> (codes 65 to 90) move to \<open>a\<close> to
  \<open>z\<close>, every other byte stays. Python also lowers letters beyond ASCII; none of
  them lowers to one of \<open>t\<close>, \<open>r\<close>, \<open>u\<close>, \<open>e\<close>, so the comparison with \<open>'true'\<close> is
  the same.
\<close>

definition lower_char :: "char \<Rightarrow> char" where
  "lower_char c =
     (let n = (of_char c :: nat) in if 65 \<le> n \<and> n \<le> 90 then char_of (n + 32) else c)"

definition lower :: "string \<Rightarrow> string" where
  "lower s = map lower_char s"

definition is_enterprise :: "environ \<Rightarrow> bool" where
  "is_enterprise E = (lower (getenv E ''DCOS_ENTERPRISE'' ''false'') = ''true'')"

text \<open>
  \<open>_get_base_args\<close>: \<open>args += [...]\<close> extends the local list, written here as a
  rebinding of \<open>args\<close>.
\<close>

definition get_base_args :: "environ \<Rightarrow> string \<Rightarrow> string list" where
  "get_base_args E cert_type =
     (let args = [''sudo'', ETCDCTL_PATH] in
      if is_enterprise E then
        (let args = args @ [''--endpoints=https://'' @ ETCD_ENDPOINTS] in
         args @
           [''--cert=/run/dcos/pki/tls/certs/etcd-client-'' @ cert_type @ ''.crt'',
            ''--key=/run/dcos/pki/tls/private/etcd-client-'' @ cert_type @ ''.key'',
            ''--cacert='' @ CA_CERT])
      else args @ [''--endpoints=http://'' @ ETCD_ENDPOINTS])"

text \<open>
  Python lists are mutable objects reached through references. The heap maps each
  reference to the list it holds; \<open>next_addr\<close> is the first unused reference, so a
  new list never shares a cell with an old one. \<open>xs.copy()\<close> and \<open>xs + ys\<close> both
  build a new list and leave their operands as they are.
\<close>

type_synonym addr = nat

record heap =
  cells :: "addr \<Rightarrow> string list"
  next_addr :: addr

definition alloc :: "string list \<Rightarrow> heap \<Rightarrow> addr \<times> heap" where
  "alloc xs h = (next_addr h, \<lparr>cells = (cells h)(next_addr h := xs), next_addr = Suc (next_addr h)\<rparr>)"

definition list_copy :: "addr \<Rightarrow> heap \<Rightarrow> addr \<times> heap" where
  "list_copy a h = alloc (cells h a) h"

definition list_add :: "addr \<Rightarrow> addr \<Rightarrow> heap \<Rightarrow> addr \<times> heap" where
  "list_add a b h = alloc (cells h a @ cells h b) h"

text \<open>
  An \<open>EtcdCtl\<close> object holds a reference to its base arguments, computed by
  \<open>__init__\<close> from the environment of that moment.
\<close>

record etcdctl =
  base_args :: addr

definition EtcdCtl_init :: "environ \<Rightarrow> string \<Rightarrow> heap \<Rightarrow> etcdctl \<times> heap" where
  "EtcdCtl_init E cert_type h =
     (let (a, h') = alloc (get_base_args E cert_type) h in (\<lparr>base_args = a\<rparr>, h'))"

text \<open>
  \<open>subprocess.run(argv, stdout=PIPE, stderr=PIPE, env=env, check=check)\<close>. The
  operating system is a parameter: given the argument vector and the environment of the
  child it either fails to start the child (\<open>Inl\<close>) or gives the exit code and the
  bytes of both streams. With \<open>check\<close> a non-zero exit code raises
  \<open>CalledProcessError\<close>, which carries the code, the arguments and both streams.
\<close>

type_synonym os_exec = "string list \<Rightarrow> environ \<Rightarrow> py_error + (int \<times> string \<times> string)"

record completed_process =
  cp_args :: "string list"
  cp_returncode :: int
  cp_stdout :: string
  cp_stderr :: string

definition subprocess_run ::
  "os_exec \<Rightarrow> string list \<Rightarrow> environ \<Rightarrow> bool \<Rightarrow> py_error + completed_process" where
  "subprocess_run os argv env check =
     (case os argv env of
        Inl e \<Rightarrow> Inl e
      | Inr (rc, out, err) \<Rightarrow>
          if check \<and> rc \<noteq> 0 then Inl (CalledProcessError rc argv out err)
          else Inr \<lparr>cp_args = argv, cp_returncode = rc, cp_stdout = out, cp_stderr = err\<rparr>)"

text \<open>
  \<open>EtcdCtl.run(cmd, check=True, env={})\<close>; \<open>cmd\<close> is the reference of the caller's
  list.
\<close>

definition run ::
  "os_exec \<Rightarrow> etcdctl \<Rightarrow> addr \<Rightarrow> bool \<Rightarrow> environ \<Rightarrow> heap \<Rightarrow> (py_error + completed_process) \<times> heap" where
  "run os self cmd check env h =
     (let (a1, h1) = list_copy (base_args self) h;
          (a2, h2) = list_add a1 cmd h1
      in (subprocess_run os (cells h2 a2) env check, h2))"

text \<open>
  Concrete inputs for the examples: a heap holding the command \<open>['member', 'list']\<close>
  at reference 0, a child that exits with status 1, a child that exits with status 0, and
  the wrapper built on \<open>heap0\<close> in an environment with no variable set.
\<close>

definition heap0 :: heap where
  "heap0 = \<lparr>cells = (\<lambda>_. [])(0 := [''member'', ''list'']), next_addr = 1\<rparr>"

definition os_exit1 :: os_exec where
  "os_exit1 argv env = Inr (1, ''partial output'', ''Error: context deadline exceeded'')"

definition os_exit0 :: os_exec where
  "os_exit0 argv env = Inr (0, join_space argv, [])"

definition etcdctl1 :: etcdctl where
  "etcdctl1 = fst (EtcdCtl_init [] ''root'' heap0)"

definition heap1 :: heap where
  "heap1 = snd (EtcdCtl_init [] ''root'' heap0)"

text \<open>
  A second call: the heap after a first call of \<open>run\<close> on \<open>heap1\<close>, and a command list
  built by the caller after it.
\<close>

definition heap2 :: heap where
  "heap2 = snd (run os_exit0 etcdctl1 0 True [] heap1)"

definition cmd2 :: addr where
  "cmd2 = fst (alloc [''get'', ''/registry''] heap2)"

definition heap3 :: heap where
  "heap3 = snd (alloc [''get'', ''/registry''] heap2)"

section \<open>The release script (\<open>admin/prepare_release.py\<close>)\<close>

text \<open>
  \<open>datetime.datetime.utcnow()\<close>: the reading of the clock; only the date is used.
  \<open>strftime('%Y.%m.%d')\<close> pads the year to four digits and month and day to two (the
  current year has four digits, where every platform prints it the same).
\<close>

record utc_datetime =
  dt_year :: nat
  dt_month :: nat
  dt_day :: nat

definition zero_pad :: "nat \<Rightarrow> nat \<Rightarrow> string" where
  "zero_pad w n = replicate (w - length (show_nat n)) (CHR ''0'') @ show_nat n"

definition strftime_Ymd :: "utc_datetime \<Rightarrow> string" where
  "strftime_Ymd d = zero_pad 4 (dt_year d) @ ''.'' @ zero_pad 2 (dt_month d) @ ''.'' @ zero_pad 2 (dt_day d)"

text \<open>
  \<open>tag_list(repo)\<close> gives the tag names as bytes, and \<open>item.decode()\<close> decodes each
  as strict UTF-8: a lead byte with its continuation bytes, no overlong form, no
  surrogate, nothing above U+10FFFF. A decoded label is kept as its UTF-8 bytes, so
  decoding checks the bytes and returns them; \<open>startswith\<close> of an ASCII prefix is the
  same on bytes and on code points.
\<close>

definition cont_byte :: "nat \<Rightarrow> bool" where
  "cont_byte b = (0x80 \<le> b \<and> b \<le> 0xBF)"

fun utf8_valid :: "nat list \<Rightarrow> bool" where
  "utf8_valid [] = True"
| "utf8_valid (b0 # bs) =
     (if b0 < 0x80 then utf8_valid bs
      else if 0xC2 \<le> b0 \<and> b0 \<le> 0xDF then
        (case bs of b1 # r \<Rightarrow> cont_byte b1 \<and> utf8_valid r | _ \<Rightarrow> False)
      else if 0xE0 \<le> b0 \<and> b0 \<le> 0xEF then
        (case bs of
           b1 # b2 # r \<Rightarrow>
             (if b0 = 0xE0 then 0xA0 \<le> b1 \<and> b1 \<le> 0xBF
              else if b0 = 0xED then 0x80 \<le> b1 \<and> b1 \<le> 0x9F
              else cont_byte b1)
             \<and> cont_byte b2 \<and> utf8_valid r
         | _ \<Rightarrow> False)
      else if 0xF0 \<le> b0 \<and> b0 \<le> 0xF4 then
        (case bs of
           b1 # b2 # b3 # r \<Rightarrow>
             (if b0 = 0xF0 then 0x90 \<le> b1 \<and> b1 \<le> 0xBF
              else if b0 = 0xF4 then 0x80 \<le> b1 \<and> b1 \<le> 0x8F
              else cont_byte b1)
             \<and> cont_byte b2 \<and> cont_byte b3 \<and> utf8_valid r
         | _ \<Rightarrow> False)
      else False)"

definition decode :: "string \<Rightarrow> py_error + string" where
  "decode b = (if utf8_valid (map of_char b) then Inr b else Inl UnicodeDecodeError)"

text \<open>
  The list comprehension \<open>[item.decode() for item in tag_labels]\<close> stops at the first
  name that does not decode.
\<close>

fun decode_all :: "string list \<Rightarrow> py_error + string list" where
  "decode_all [] = Inr []"
| "decode_all (item # items) =
     (case decode item of
        Inl e \<Rightarrow> Inl e
      | Inr s \<Rightarrow> (case decode_all items of Inl e \<Rightarrow> Inl e | Inr ss \<Rightarrow> Inr (s # ss)))"

definition startswith :: "string \<Rightarrow> string \<Rightarrow> bool" where
  "startswith s p = (take (length p) s = p)"

text \<open>
  \<open>get_version\<close>, given the clock reading and the tag names of the repository in the
  working directory.
\<close>

definition get_version :: "utc_datetime \<Rightarrow> string list \<Rightarrow> py_error + string" where
  "get_version utc_now tag_list =
     (let date_str = strftime_Ymd utc_now in
      case decode_all tag_list of
        Inl e \<Rightarrow> Inl e
      | Inr tag_labels \<Rightarrow>
          (let today_tag_labels = filter (\<lambda>item. startswith item date_str) tag_labels;
               micro = int (length today_tag_labels)
           in Inr (date_str @ ''.'' @ show_int micro)))"

text \<open>A day for the examples.\<close>

definition today :: utc_datetime where
  "today = \<lparr>dt_year = 2018, dt_month = 7, dt_day = 4\<rparr>"

text \<open>
  Two repositories for the examples: one holds a tag named in Latin-1 (\<open>caf\<close> and
  the byte \<open>0xE9\<close>), the other only names that are valid UTF-8.
\<close>

definition latin1_repo :: "string list" where
  "latin1_repo = [''2018.07.04.0'', ''caf'' @ [CHR 0xE9]]"

definition two_today_repo :: "string list" where
  "two_today_repo = [''2018.07.03.0'', ''2018.07.04.0'', ''2018.07.04.1'', ''caf'' @ [CHR 0xC3, CHR 0xA9]]"

section \<open>Creating a cluster on Docker (\<open>dcos_docker/commands/create.py\<close>)\<close>

text \<open>
  A \<open>pathlib.Path\<close> is kept as its string; \<open>p / 'name'\<close> joins with one slash.
\<close>

type_synonym path = string

definition path_join :: "path \<Rightarrow> string \<Rightarrow> path" where
  "path_join p q = (if p = ''/'' then ''/'' @ q else p @ ''/'' @ q)"

text \<open>
  \<open>dcos_e2e.node.Transport\<close> and the three roles of a node.
\<close>

datatype transport = SSH | DOCKER_EXEC

datatype node_role = Master | Agent | PublicAgent

text \<open>
  A Python \<open>dict\<close> with string keys: the pairs in insertion order, each key once.
  Storing under a key that is present replaces its value in place, so in a dict literal
  and in \<open>{**d, **e}\<close> the last value given for a key wins.
\<close>

type_synonym 'v dict = "(string \<times> 'v) list"

definition dict_set :: "'v dict \<Rightarrow> string \<times> 'v \<Rightarrow> 'v dict" where
  "dict_set d kv = AList.update (fst kv) (snd kv) d"

definition dict_of :: "(string \<times> 'v) list \<Rightarrow> 'v dict" where
  "dict_of kvs = foldl dict_set [] kvs"

definition dict_merge :: "'v dict \<Rightarrow> 'v dict \<Rightarrow> 'v dict" where
  "dict_merge d e = foldl dict_set d e"

definition dict_get :: "'v dict \<Rightarrow> string \<Rightarrow> 'v option" where
  "dict_get d k = map_of d k"

text \<open>
  The constants of \<open>dcos_docker/commands/_common.py\<close>, the default container name
  prefix and the \<open>ip_detect_path\<close> of the \<open>Docker\<close> backend, and the pure helpers
  \<open>command_path\<close> and \<open>get_doctor_message\<close> are not under \<open>src/\<close>: they are
  parameters of the model.
\<close>

record label_consts =
  CLUSTER_ID_LABEL_KEY :: string
  WORKSPACE_DIR_LABEL_KEY :: string
  NODE_TYPE_LABEL_KEY :: string
  NODE_TYPE_MASTER_LABEL_VALUE :: string
  NODE_TYPE_AGENT_LABEL_VALUE :: string
  NODE_TYPE_PUBLIC_AGENT_LABEL_VALUE :: string
  DOCKER_STORAGE_DRIVERS :: "string dict"
  default_container_name_prefix :: string
  ip_detect_path :: path
  command_path :: "string \<Rightarrow> string"
  get_doctor_message :: "string \<Rightarrow> string"

text \<open>
  The keyword arguments with which \<open>create\<close> builds the \<open>Docker\<close> backend (fields
  carry the prefix \<open>b_\<close>).
\<close>

record docker_backend =
  b_container_name_prefix :: string
  b_custom_container_mounts :: "string list"
  b_custom_master_mounts :: "string list"
  b_custom_agent_mounts :: "string list"
  b_custom_public_agent_mounts :: "string list"
  b_linux_distribution :: string
  b_docker_version :: string
  b_storage_driver :: "string option"
  b_docker_container_labels :: "string dict"
  b_docker_master_labels :: "string dict"
  b_docker_agent_labels :: "string dict"
  b_docker_public_agent_labels :: "string dict"
  b_workspace_dir :: path
  b_transport :: transport
  b_network :: string
  b_one_master_host_port_map :: "int dict"
  b_mount_sys_fs_cgroup :: bool

text \<open>
  A container of the Docker daemon with its labels, the handle \<open>create_cluster\<close>
  returns (the names of the nodes of each role), and the \<open>ClusterContainers\<close> object,
  which holds a cluster id and a transport.
\<close>

record container =
  c_name :: string
  c_role :: node_role
  c_labels :: "string dict"

record cluster =
  cl_masters :: "string list"
  cl_agents :: "string list"
  cl_public_agents :: "string list"

record cluster_containers =
  cc_cluster_id :: string
  cc_transport :: transport

text \<open>
  One event for each call \<open>create\<close> makes to a collaborator, with the arguments it
  passes, in the order of the source.
\<close>

datatype event =
    Existing_cluster_ids
  | Check_cluster_id_unique string "string list"
  | Mkdir path
  | Write_key_pair path path
  | Get_install_variant string path path string
  | Create_cluster docker_backend int int int string
  | Start_container container
  | Node_run string "string list" bool
  | Read_text path
  | Send_file string path path
  | Get_config cluster_containers string string "string option" "path option"
  | Install_dcos_from_path cluster_containers string path string path "path option"
  | Run_post_install_steps cluster string string string bool string bool

text \<open>
  The collaborators are not under \<open>src/\<close>. \<open>raises\<close> says whether a call raises,
  given the calls made so far; \<open>returns\<close> gives the value of a call that returns (a
  variant, a configuration, the text of a file), as a string.
\<close>

record helpers =
  raises :: "event list \<Rightarrow> event \<Rightarrow> py_error option"
  returns :: "event \<Rightarrow> string"

text \<open>
  The state of a run: the containers the Docker daemon holds, and the calls made so far.
  A program either raises (\<open>Inl\<close>) or returns a value (\<open>Inr\<close>), and leaves a state;
  \<open>bind\<close> is Python's sequencing, where an exception skips the rest.
\<close>

record state =
  docker :: "container list"
  trace :: "event list"

type_synonym 'a prog = "state \<Rightarrow> (py_error + 'a) \<times> state"

definition ret :: "'a \<Rightarrow> 'a prog" where
  "ret x s = (Inr x, s)"

definition bind :: "'a prog \<Rightarrow> ('a \<Rightarrow> 'b prog) \<Rightarrow> 'b prog" where
  "bind c f s = (case c s of (Inl e, s') \<Rightarrow> (Inl e, s') | (Inr x, s') \<Rightarrow> f x s')"

fun for_each :: "'a list \<Rightarrow> ('a \<Rightarrow> unit prog) \<Rightarrow> unit prog" where
  "for_each [] body = ret ()"
| "for_each (x # xs) body = bind (body x) (\<lambda>_. for_each xs body)"

definition call :: "helpers \<Rightarrow> event \<Rightarrow> string prog" where
  "call H ev s =
     (case raises H (trace s) ev of
        Some e \<Rightarrow> (Inl e, s\<lparr>trace := trace s @ [ev]\<rparr>)
      | None \<Rightarrow> (Inr (returns H ev), s\<lparr>trace := trace s @ [ev]\<rparr>))"

text \<open>
  The parameters of the \<open>create\<close> command, as click passes them.
\<close>

record create_args =
  agents :: int
  installer :: path
  cluster_id :: string
  docker_storage_driver :: "string option"
  docker_version :: string
  extra_config :: string
  linux_distribution :: string
  masters :: int
  public_agents :: int
  license_key :: "path option"
  security_mode :: "string option"
  copy_to_master :: "(path \<times> path) list"
  genconf_dir :: "path option"
  workspace_dir :: path
  custom_volume :: "string list"
  custom_master_volume :: "string list"
  custom_agent_volume :: "string list"
  custom_public_agent_volume :: "string list"
  variant :: string
  transport :: transport
  wait_for_dcos :: bool
  network :: string
  one_master_host_port_map :: "int dict"
  mount_sys_fs_cgroup :: bool

text \<open>
  Modelled from the spec: \<open>existing_cluster_ids\<close> (\<open>_common.py\<close>, not under
  \<open>src/\<close>) is \<open>list_cluster_ids\<close>, "derived purely from querying current backend
  metadata (tags/labels), never from cached state": the cluster id labels of the
  containers the daemon holds when it is called.
\<close>

definition get_docker :: "container list prog" where
  "get_docker s = (Inr (docker s), s)"

definition cluster_ids_of :: "label_consts \<Rightarrow> container list \<Rightarrow> string list" where
  "cluster_ids_of K cs =
     remdups (List.map_filter (\<lambda>c. dict_get (c_labels c) (CLUSTER_ID_LABEL_KEY K)) cs)"

definition existing_cluster_ids :: "label_consts \<Rightarrow> helpers \<Rightarrow> string list prog" where
  "existing_cluster_ids K H =
     bind (call H Existing_cluster_ids) (\<lambda>_.
     bind get_docker (\<lambda>cs.
     ret (cluster_ids_of K cs)))"

text \<open>
  Modelled from the spec: \<open>check_cluster_id_unique\<close> (\<open>common/utils.py\<close>, not under
  \<open>src/\<close>) enforces that the id "must be unique among a backend's currently
  enumerable clusters at creation time": it raises when the new id is among the ids
  it is given.
\<close>

definition check_cluster_id_unique :: "string \<Rightarrow> string list \<Rightarrow> unit prog" where
  "check_cluster_id_unique new_cluster_id ids s =
     (if new_cluster_id \<in> set ids
      then Inl (BadParameter (''A cluster with the id '' @ new_cluster_id @ '' already exists.''))
      else Inr (),
      s\<lparr>trace := trace s @ [Check_cluster_id_unique new_cluster_id ids]\<rparr>)"

text \<open>
  Modelled from the spec: \<open>create_cluster\<close> (\<open>common/create.py\<close>) and the
  \<open>Docker\<close> backend are not under \<open>src/\<close>. \<open>provision\<close> "allocates the requested
  node counts, tags every allocated resource with {cluster-id, role, workspace-path}",
  and when the allocation of a node fails "previously allocated nodes for this call
  remain tagged and enumerable". So the containers start one by one, masters first;
  each carries the labels of every container of the backend merged with the labels of
  its role; a negative count starts none, as \<open>range\<close> of a negative number is
  empty.
\<close>

definition role_labels :: "docker_backend \<Rightarrow> node_role \<Rightarrow> string dict" where
  "role_labels backend role =
     (case role of
        Master \<Rightarrow> b_docker_master_labels backend
      | Agent \<Rightarrow> b_docker_agent_labels backend
      | PublicAgent \<Rightarrow> b_docker_public_agent_labels backend)"

definition role_name :: "node_role \<Rightarrow> string" where
  "role_name role =
     (case role of Master \<Rightarrow> ''master'' | Agent \<Rightarrow> ''agent'' | PublicAgent \<Rightarrow> ''public-agent'')"

definition new_container :: "docker_backend \<Rightarrow> node_role \<Rightarrow> nat \<Rightarrow> container" where
  "new_container backend role i =
     \<lparr>c_name = b_container_name_prefix backend @ ''-'' @ role_name role @ ''-'' @ show_nat i,
      c_role = role,
      c_labels = dict_merge (b_docker_container_labels backend) (role_labels backend role)\<rparr>"

definition nodes_of :: "docker_backend \<Rightarrow> node_role \<Rightarrow> int \<Rightarrow> container list" where
  "nodes_of backend role n = map (new_container backend role) [0..<nat n]"

definition cluster_of :: "docker_backend \<Rightarrow> int \<Rightarrow> int \<Rightarrow> int \<Rightarrow> cluster" where
  "cluster_of backend m a p =
     \<lparr>cl_masters = map c_name (nodes_of backend Master m),
      cl_agents = map c_name (nodes_of backend Agent a),
      cl_public_agents = map c_name (nodes_of backend PublicAgent p)\<rparr>"

definition start_container :: "helpers \<Rightarrow> container \<Rightarrow> unit prog" where
  "start_container H c =
     bind (call H (Start_container c)) (\<lambda>_ s. (Inr (), s\<lparr>docker := docker s @ [c]\<rparr>))"

definition create_cluster ::
  "helpers \<Rightarrow> docker_backend \<Rightarrow> int \<Rightarrow> int \<Rightarrow> int \<Rightarrow> string \<Rightarrow> cluster prog" where
  "create_cluster H cluster_backend n_masters n_agents n_public_agents doctor_message =
     bind (call H (Create_cluster cluster_backend n_masters n_agents n_public_agents doctor_message)) (\<lambda>_.
     bind (for_each
             (nodes_of cluster_backend Master n_masters @ nodes_of cluster_backend Agent n_agents
              @ nodes_of cluster_backend PublicAgent n_public_agents)
             (start_container H)) (\<lambda>_.
     ret (cluster_of cluster_backend n_masters n_agents n_public_agents)))"

text \<open>
  \<open>_add_authorized_key\<close>: the nodes of the three roles as a set (each node once),
  two commands on each, the public key read for the second.
\<close>

definition add_authorized_key :: "helpers \<Rightarrow> cluster \<Rightarrow> path \<Rightarrow> unit prog" where
  "add_authorized_key H cl public_key_path =
     for_each (remdups (cl_masters cl @ cl_agents cl @ cl_public_agents cl)) (\<lambda>node.
       bind (call H (Node_run node [''echo'', [], ''>>'', ''/root/.ssh/authorized_keys''] True)) (\<lambda>_.
       bind (call H (Read_text public_key_path)) (\<lambda>key_text.
       bind (call H (Node_run node [''echo'', key_text, ''>>'', ''/root/.ssh/authorized_keys''] True)) (\<lambda>_.
       ret ()))))"

text \<open>
  The loop of \<open>create\<close> over \<open>cluster.masters\<close> and \<open>copy_to_master\<close>.
\<close>

definition send_files :: "helpers \<Rightarrow> cluster \<Rightarrow> (path \<times> path) list \<Rightarrow> unit prog" where
  "send_files H cl pairs =
     for_each (cl_masters cl) (\<lambda>node.
       for_each pairs (\<lambda>path_pair.
         bind (call H (Send_file node (fst path_pair) (snd path_pair))) (\<lambda>_. ret ())))"

text \<open>
  The \<open>Docker(...)\<close> call of \<open>create\<close>.
\<close>

definition docker_backend_of :: "label_consts \<Rightarrow> create_args \<Rightarrow> docker_backend" where
  "docker_backend_of K a =
     \<lparr>b_container_name_prefix = default_container_name_prefix K @ ''-'' @ cluster_id a,
      b_custom_container_mounts = custom_volume a,
      b_custom_master_mounts = custom_master_volume a,
      b_custom_agent_mounts = custom_agent_volume a,
      b_custom_public_agent_mounts = custom_public_agent_volume a,
      b_linux_distribution = linux_distribution a,
      b_docker_version = docker_version a,
      b_storage_driver =
        (case docker_storage_driver a of
           None \<Rightarrow> None
         | Some d \<Rightarrow> dict_get (DOCKER_STORAGE_DRIVERS K) d),
      b_docker_container_labels =
        dict_of [(CLUSTER_ID_LABEL_KEY K, cluster_id a), (WORKSPACE_DIR_LABEL_KEY K, workspace_dir a)],
      b_docker_master_labels = dict_of [(NODE_TYPE_LABEL_KEY K, NODE_TYPE_MASTER_LABEL_VALUE K)],
      b_docker_agent_labels = dict_of [(NODE_TYPE_LABEL_KEY K, NODE_TYPE_AGENT_LABEL_VALUE K)],
      b_docker_public_agent_labels =
        dict_of [(NODE_TYPE_LABEL_KEY K, NODE_TYPE_PUBLIC_AGENT_LABEL_VALUE K)],
      b_workspace_dir = workspace_dir a,
      b_transport = transport a,
      b_network = network a,
      b_one_master_host_port_map = one_master_host_port_map a,
      b_mount_sys_fs_cgroup = mount_sys_fs_cgroup a\<rparr>"

text \<open>
  \<open>create\<close>, statement by statement.
\<close>

definition create :: "label_consts \<Rightarrow> helpers \<Rightarrow> create_args \<Rightarrow> unit prog" where
  "create K H a =
     bind (existing_cluster_ids K H) (\<lambda>ids.
     bind (check_cluster_id_unique (cluster_id a) ids) (\<lambda>_.
     let http_checks = (transport a = SSH);
         wait_command_name = command_path K ''wait'';
         doctor_command_name = command_path K ''doctor'';
         doctor_message = get_doctor_message K doctor_command_name;
         ssh_keypair_dir = path_join (workspace_dir a) ''ssh''
     in
     bind (call H (Mkdir ssh_keypair_dir)) (\<lambda>_.
     let public_key_path = path_join ssh_keypair_dir ''id_rsa.pub'';
         private_key_path = path_join ssh_keypair_dir ''id_rsa''
     in
     bind (call H (Write_key_pair public_key_path private_key_path)) (\<lambda>_.
     bind (call H (Get_install_variant (variant a) (installer a) (workspace_dir a) doctor_message))
       (\<lambda>dcos_variant.
     let cluster_backend = docker_backend_of K a in
     bind (create_cluster H cluster_backend (masters a) (agents a) (public_agents a) doctor_message)
       (\<lambda>cl.
     bind (add_authorized_key H cl public_key_path) (\<lambda>_.
     bind (send_files H cl (copy_to_master a)) (\<lambda>_.
     let cluster_containers = \<lparr>cc_cluster_id = cluster_id a, cc_transport = transport a\<rparr> in
     bind (call H (Get_config cluster_containers (extra_config a) dcos_variant (security_mode a)
                     (license_key a))) (\<lambda>dcos_config.
     bind (call H (Install_dcos_from_path cluster_containers dcos_config (ip_detect_path K)
                     doctor_message (installer a) (genconf_dir a))) (\<lambda>_.
     bind (call H (Run_post_install_steps cl (cluster_id a) dcos_config doctor_command_name
                     http_checks wait_command_name (wait_for_dcos a))) (\<lambda>_.
     ret ())))))))))))"

text \<open>
  Concrete inputs for the examples: the label keys of the project, collaborators that
  never raise, a request for one master and no agent with one file to copy, and an
  empty Docker daemon.
\<close>

definition K0 :: label_consts where
  "K0 = \<lparr>CLUSTER_ID_LABEL_KEY = ''dcos_e2e.cluster_id'',
         WORKSPACE_DIR_LABEL_KEY = ''dcos_e2e.workspace_dir'',
         NODE_TYPE_LABEL_KEY = ''dcos_e2e.node_type'',
         NODE_TYPE_MASTER_LABEL_VALUE = ''master'',
         NODE_TYPE_AGENT_LABEL_VALUE = ''agent'',
         NODE_TYPE_PUBLIC_AGENT_LABEL_VALUE = ''public_agent'',
         DOCKER_STORAGE_DRIVERS = [(''aufs'', ''AUFS''), (''overlay'', ''OVERLAY'')],
         default_container_name_prefix = ''dcos-e2e'',
         ip_detect_path = ''/ip-detect'',
         command_path = (\<lambda>c. ''minidcos docker '' @ c),
         get_doctor_message = (\<lambda>c. ''Try '' @ c)\<rparr>"

definition never_raises :: "event list \<Rightarrow> event \<Rightarrow> py_error option" where
  "never_raises t ev = None"

definition fixed_returns :: "event \<Rightarrow> string" where
  "fixed_returns ev =
     (case ev of
        Get_install_variant _ _ _ _ \<Rightarrow> ''oss''
      | Read_text _ \<Rightarrow> ''ssh-rsa AAAA''
      | Get_config _ _ _ _ _ \<Rightarrow> ''config''
      | _ \<Rightarrow> [])"

definition H0 :: helpers where
  "H0 = \<lparr>raises = never_raises, returns = fixed_returns\<rparr>"

definition args0 :: create_args where
  "args0 = \<lparr>agents = 0, installer = ''/tmp/dcos_generate_config.sh'', cluster_id = ''test1'',
            docker_storage_driver = None, docker_version = ''18.06.3-ce'', extra_config = [],
            linux_distribution = ''centos-7'', masters = 1, public_agents = 0, license_key = None,
            security_mode = None, copy_to_master = [(''/tmp/a'', ''/etc/a'')], genconf_dir = None,
            workspace_dir = ''/tmp/ws'', custom_volume = [], custom_master_volume = [],
            custom_agent_volume = [], custom_public_agent_volume = [], variant = ''auto'',
            transport = DOCKER_EXEC, wait_for_dcos = False, network = ''bridge'',
            one_master_host_port_map = [], mount_sys_fs_cgroup = True\<rparr>"

definition s0 :: state where
  "s0 = \<lparr>docker = [], trace = []\<rparr>"


text \<open>
  The containers that a list of calls has started, and the calls of a run in which
  nothing raises: \<open>create_plan\<close>. A run \<open>follows\<close> a plan when its calls are the plan,
  cut after the first call that raises, and the containers it adds are those started
  before the cut.
\<close>

fun started :: "event list \<Rightarrow> container list" where
  "started [] = []"
| "started (Start_container c # evs) = c # started evs"
| "started (_ # evs) = started evs"

definition is_start :: "event \<Rightarrow> bool" where
  "is_start ev = (case ev of Start_container _ \<Rightarrow> True | _ \<Rightarrow> False)"

definition cut_at :: "container list \<Rightarrow> event list \<Rightarrow> 'a \<Rightarrow> state \<Rightarrow> (py_error + 'a) \<times> state \<Rightarrow> bool" where
  "cut_at w xs v s rs =
     (case rs of
        (Inr v', s') \<Rightarrow> v' = v \<and> trace s' = trace s @ xs \<and> docker s' = w @ started xs
      | (Inl e, s') \<Rightarrow>
          (\<exists>n. n < length xs \<and> trace s' = trace s @ take (Suc n) xs
               \<and> docker s' = w @ started (take n xs)))"

definition follows :: "container list \<Rightarrow> 'a prog \<Rightarrow> event list \<Rightarrow> 'a \<Rightarrow> bool" where
  "follows w c xs v \<longleftrightarrow> (\<forall>s. docker s = w \<longrightarrow> cut_at w xs v s (c s))"

definition provision_events :: "docker_backend \<Rightarrow> int \<Rightarrow> int \<Rightarrow> int \<Rightarrow> string \<Rightarrow> event list" where
  "provision_events backend m a p dm =
     [Create_cluster backend m a p dm] @
     map Start_container (nodes_of backend Master m @ nodes_of backend Agent a @ nodes_of backend PublicAgent p)"

definition auth_events :: "helpers \<Rightarrow> cluster \<Rightarrow> path \<Rightarrow> event list" where
  "auth_events H cl pk =
     concat (map (\<lambda>node.
        [Node_run node [''echo'', [], ''>>'', ''/root/.ssh/authorized_keys''] True,
         Read_text pk,
         Node_run node [''echo'', returns H (Read_text pk), ''>>'', ''/root/.ssh/authorized_keys''] True])
       (remdups (cl_masters cl @ cl_agents cl @ cl_public_agents cl)))"

definition send_events :: "cluster \<Rightarrow> (path \<times> path) list \<Rightarrow> event list" where
  "send_events cl pairs =
     concat (map (\<lambda>node. map (\<lambda>pp. Send_file node (fst pp) (snd pp)) pairs) (cl_masters cl))"

definition create_plan :: "label_consts \<Rightarrow> helpers \<Rightarrow> create_args \<Rightarrow> container list \<Rightarrow> event list" where
  "create_plan K H a w =
     (let doctor_message = get_doctor_message K (command_path K ''doctor'');
          ssh = path_join (workspace_dir a) ''ssh'';
          pk = path_join ssh ''id_rsa.pub'';
          backend = docker_backend_of K a;
          cl = cluster_of backend (masters a) (agents a) (public_agents a);
          cc = \<lparr>cc_cluster_id = cluster_id a, cc_transport = transport a\<rparr>;
          giv = Get_install_variant (variant a) (installer a) (workspace_dir a) doctor_message;
          gc = Get_config cc (extra_config a) (returns H giv) (security_mode a) (license_key a)
      in [Existing_cluster_ids,
          Check_cluster_id_unique (cluster_id a) (cluster_ids_of K w),
          Mkdir ssh,
          Write_key_pair pk (path_join ssh ''id_rsa''),
          giv]
         @ provision_events backend (masters a) (agents a) (public_agents a) doctor_message
         @ auth_events H cl pk
         @ send_events cl (copy_to_master a)
         @ [gc,
            Install_dcos_from_path cc (returns H gc) (ip_detect_path K) doctor_message
              (installer a) (genconf_dir a),
            Run_post_install_steps cl (cluster_id a) (returns H gc) (command_path K ''doctor'')
              (transport a = SSH) (command_path K ''wait'') (wait_for_dcos a)])"

text \<open>
  Kinds of calls.
\<close>

definition is_create_cluster :: "event \<Rightarrow> bool" where
  "is_create_cluster ev = (case ev of Create_cluster _ _ _ _ _ \<Rightarrow> True | _ \<Rightarrow> False)"

definition is_provisioning :: "event \<Rightarrow> bool" where
  "is_provisioning ev = (is_create_cluster ev \<or> is_start ev)"

definition is_send_file :: "event \<Rightarrow> bool" where
  "is_send_file ev = (case ev of Send_file _ _ _ \<Rightarrow> True | _ \<Rightarrow> False)"

definition is_get_config :: "event \<Rightarrow> bool" where
  "is_get_config ev = (case ev of Get_config _ _ _ _ _ \<Rightarrow> True | _ \<Rightarrow> False)"

definition is_install :: "event \<Rightarrow> bool" where
  "is_install ev = (case ev of Install_dcos_from_path _ _ _ _ _ _ \<Rightarrow> True | _ \<Rightarrow> False)"

text \<open>
  A call other than the check of the id returns when \<open>raises\<close> gives no exception for
  it after the calls made before it. A program is honest when, in each of its runs, all
  the calls it made returned, but for the last one of a run that raised.
\<close>

definition is_check :: "event \<Rightarrow> bool" where
  "is_check ev = (case ev of Check_cluster_id_unique _ _ \<Rightarrow> True | _ \<Rightarrow> False)"

definition all_returned :: "helpers \<Rightarrow> event list \<Rightarrow> event list \<Rightarrow> bool" where
  "all_returned H t evs \<longleftrightarrow>
     (\<forall>i<length evs. \<not> is_check (evs ! i) \<longrightarrow> raises H (t @ take i evs) (evs ! i) = None)"

definition honest :: "helpers \<Rightarrow> 'a prog \<Rightarrow> bool" where
  "honest H c \<longleftrightarrow>
     (\<forall>s r s'. c s = (r, s') \<longrightarrow>
        (\<exists>evs. trace s' = trace s @ evs
           \<and> (case r of
                Inr _ \<Rightarrow> all_returned H (trace s) evs
              | Inl _ \<Rightarrow> evs \<noteq> [] \<and> all_returned H (trace s) (butlast evs))))"

text \<open>
  Collaborators for which every transfer of a file fails.
\<close>

definition send_fails :: "event list \<Rightarrow> event \<Rightarrow> py_error option" where
  "send_fails t ev = (case ev of Send_file _ _ _ \<Rightarrow> Some (OSError ''send_file'') | _ \<Rightarrow> None)"

definition H1 :: helpers where
  "H1 = \<lparr>raises = send_fails, returns = fixed_returns\<rparr>"

text \<open>
  A run that raises stops at the call that raised: the last call of its trace is the
  check of an id that is taken, or a call for which \<open>raises\<close> gives the exception.
\<close>

definition raised_last :: "helpers \<Rightarrow> event list \<Rightarrow> py_error \<Rightarrow> event list \<Rightarrow> bool" where
  "raised_last H t e t' \<longleftrightarrow>
     (\<exists>evs ev. t' = t @ evs @ [ev]
        \<and> ((\<exists>i ids. ev = Check_cluster_id_unique i ids \<and> i \<in> set ids)
             \<or> (\<not> is_check ev \<and> raises H (t @ evs) ev = Some e)))"

definition stops_on_raise :: "helpers \<Rightarrow> 'a prog \<Rightarrow> bool" where
  "stops_on_raise H c \<longleftrightarrow> (\<forall>s e s'. c s = (Inl e, s') \<longrightarrow> raised_last H (trace s) e (trace s'))"

text \<open>
  The calls of \<open>create\<close> before \<open>create_cluster\<close>, the call of \<open>create_cluster\<close>
  itself, and a request for no master.
\<close>

definition create_prelude :: "label_consts \<Rightarrow> create_args \<Rightarrow> container list \<Rightarrow> event list" where
  "create_prelude K a w =
     [Existing_cluster_ids,
      Check_cluster_id_unique (cluster_id a) (cluster_ids_of K w),
      Mkdir (path_join (workspace_dir a) ''ssh''),
      Write_key_pair (path_join (path_join (workspace_dir a) ''ssh'') ''id_rsa.pub'')
        (path_join (path_join (workspace_dir a) ''ssh'') ''id_rsa''),
      Get_install_variant (variant a) (installer a) (workspace_dir a)
        (get_doctor_message K (command_path K ''doctor''))]"

definition create_cluster_call :: "label_consts \<Rightarrow> create_args \<Rightarrow> event" where
  "create_cluster_call K a =
     Create_cluster (docker_backend_of K a) (masters a) (agents a) (public_agents a)
       (get_doctor_message K (command_path K ''doctor''))"

definition args_no_master :: create_args where
  "args_no_master = args0\<lparr>masters := 0\<rparr>"

section \<open>The options for the size of a cluster (\<open>common/options/cluster_size.py\<close>)\<close>

text \<open>
  \<open>click.INT\<close> converts the text of an option with Python's \<open>int\<close>: surrounding
  white space is dropped, then an optional sign, then decimal digits, where one
  underscore may stand between two digits. Digits and white space beyond ASCII, which
  Python also accepts, are outside this model: it rejects a text only where the text is
  ASCII.
\<close>

definition is_space :: "char \<Rightarrow> bool" where
  "is_space c = (c \<in> set [CHR '' '', CHR 0x09, CHR 0x0A, CHR 0x0B, CHR 0x0C, CHR 0x0D])"

definition strip :: "string \<Rightarrow> string" where
  "strip s = rev (dropWhile is_space (rev (dropWhile is_space s)))"

definition is_digit :: "char \<Rightarrow> bool" where
  "is_digit c = (48 \<le> (of_char c :: nat) \<and> (of_char c :: nat) \<le> 57)"

definition digit_val :: "char \<Rightarrow> nat" where
  "digit_val c = of_char c - 48"

fun parse_digits :: "nat \<Rightarrow> string \<Rightarrow> nat option" where
  "parse_digits acc [] = Some acc"
| "parse_digits acc (c # cs) =
     (if is_digit c then parse_digits (10 * acc + digit_val c) cs
      else if c = CHR ''_'' then
        (case cs of
           [] \<Rightarrow> None
         | d # ds \<Rightarrow> if is_digit d then parse_digits (10 * acc + digit_val d) ds else None)
      else None)"

definition parse_nat :: "string \<Rightarrow> nat option" where
  "parse_nat s =
     (case s of
        [] \<Rightarrow> None
      | c # cs \<Rightarrow> if is_digit c then parse_digits (digit_val c) cs else None)"

definition py_int :: "string \<Rightarrow> int option" where
  "py_int s =
     (case strip s of
        [] \<Rightarrow> None
      | c # cs \<Rightarrow>
          if c = CHR ''-'' then map_option (\<lambda>n. - int n) (parse_nat cs)
          else if c = CHR ''+'' then map_option int (parse_nat cs)
          else map_option int (parse_nat (c # cs)))"

text \<open>
  \<open>click.option(..., type=click.INT, default=d)\<close>: the default when the option is not
  given, else the converted text; a text that is no integer is a \<open>BadParameter\<close>. The
  three options of \<open>cluster_size.py\<close> are this option with default 1; none gives a
  range.
\<close>

definition INT_convert :: "string \<Rightarrow> py_error + int" where
  "INT_convert v =
     (case py_int v of
        Some n \<Rightarrow> Inr n
      | None \<Rightarrow> Inl (BadParameter (v @ '' is not a valid integer'')))"

definition int_option :: "int \<Rightarrow> string option \<Rightarrow> py_error + int" where
  "int_option dflt given = (case given of None \<Rightarrow> Inr dflt | Some v \<Rightarrow> INT_convert v)"

definition masters_option :: "string option \<Rightarrow> py_error + int" where
  "masters_option = int_option 1"

definition agents_option :: "string option \<Rightarrow> py_error + int" where
  "agents_option = int_option 1"

definition public_agents_option :: "string option \<Rightarrow> py_error + int" where
  "public_agents_option = int_option 1"


section \<open>Properties\<close>

text \<open>
  C9. For every \<open>RegistrationError\<close> instance, built from any file name and any error
  object with a return code and an output, \<open>__str__\<close> raises \<open>NameError\<close> for the name
  \<open>filename\<close> and returns no message.
\<close>

theorem RegistrationError_str_raises:
  "RegistrationError_str (RegistrationError_init fname error) = Inl (NameError ''filename'')"
  by (simp add: RegistrationError_str_def load_name_def module_globals_def module_builtins_def)

subsection \<open>The \<open>etcdctl\<close> wrapper\<close>

lemma lower_char_eq:
  fixes n :: nat
  assumes "97 \<le> n" "n \<le> 122"
  shows "lower_char c = char_of n \<longleftrightarrow> c = char_of n \<or> c = char_of (n - 32)"
proof -
  define m where "m = (of_char c :: nat)"
  have m: "m < 256" "c = char_of m" by (simp_all add: m_def)
  show ?thesis
  proof (cases "65 \<le> m \<and> m \<le> 90")
    case True
    then have "lower_char c = char_of (m + 32)" by (simp add: lower_char_def m_def)
    then show ?thesis using True m assms
      by (auto simp: char_of_eq_iff take_bit_eq_mod)
  next
    case False
    then have "lower_char c = c" by (auto simp: lower_char_def m_def)
    then show ?thesis using False m assms
      by (auto simp: char_of_eq_iff take_bit_eq_mod)
  qed
qed

lemma char_codes:
  "char_of (116::nat) = CHR ''t''" "char_of (84::nat) = CHR ''T''"
  "char_of (114::nat) = CHR ''r''" "char_of (82::nat) = CHR ''R''"
  "char_of (117::nat) = CHR ''u''" "char_of (85::nat) = CHR ''U''"
  "char_of (101::nat) = CHR ''e''" "char_of (69::nat) = CHR ''E''"
  by code_simp+

lemma lower_t: "lower_char c = CHR ''t'' \<longleftrightarrow> c = CHR ''t'' \<or> c = CHR ''T''"
  unfolding char_codes [symmetric] using lower_char_eq [of 116 c] by simp

lemma lower_r: "lower_char c = CHR ''r'' \<longleftrightarrow> c = CHR ''r'' \<or> c = CHR ''R''"
  unfolding char_codes [symmetric] using lower_char_eq [of 114 c] by simp

lemma lower_u: "lower_char c = CHR ''u'' \<longleftrightarrow> c = CHR ''u'' \<or> c = CHR ''U''"
  unfolding char_codes [symmetric] using lower_char_eq [of 117 c] by simp

lemma lower_e: "lower_char c = CHR ''e'' \<longleftrightarrow> c = CHR ''e'' \<or> c = CHR ''E''"
  unfolding char_codes [symmetric] using lower_char_eq [of 101 c] by simp

lemma lower_true:
  "lower s = ''true'' \<longleftrightarrow>
     (\<exists>a b c d. s = [a, b, c, d] \<and> (a = CHR ''t'' \<or> a = CHR ''T'') \<and> (b = CHR ''r'' \<or> b = CHR ''R'')
        \<and> (c = CHR ''u'' \<or> c = CHR ''U'') \<and> (d = CHR ''e'' \<or> d = CHR ''E''))"
proof -
  have "lower s = ''true'' \<longleftrightarrow>
          (\<exists>a b c d. s = [a, b, c, d] \<and> lower_char a = CHR ''t'' \<and> lower_char b = CHR ''r''
             \<and> lower_char c = CHR ''u'' \<and> lower_char d = CHR ''e'')"
    by (simp add: lower_def map_eq_Cons_conv) blast
  then show ?thesis
    by (simp only: lower_t lower_r lower_u lower_e)
qed

lemma run_eq:
  assumes "base_args self < next_addr h" "cmd < next_addr h"
  shows "\<exists>h'. run os self cmd check env h =
            (subprocess_run os (cells h (base_args self) @ cells h cmd) env check, h')
          \<and> cells h' (base_args self) = cells h (base_args self)
          \<and> cells h' cmd = cells h cmd"
  using assms by (auto simp: run_def list_copy_def list_add_def alloc_def)

lemma run_frame:
  assumes "base_args self < next_addr h" "cmd < next_addr h"
  shows "\<exists>h'. run os self cmd check env h =
            (subprocess_run os (cells h (base_args self) @ cells h cmd) env check, h')
          \<and> next_addr h \<le> next_addr h' \<and> (\<forall>a<next_addr h. cells h' a = cells h a)"
  using assms by (auto simp: run_def list_copy_def list_add_def alloc_def)

lemma init_frame:
  assumes "EtcdCtl_init E cert_type h0 = (self, h)"
  shows "base_args self < next_addr h \<and> cells h (base_args self) = get_base_args E cert_type
       \<and> next_addr h0 \<le> next_addr h \<and> (\<forall>a<next_addr h0. cells h a = cells h0 a)"
  using assms by (auto simp: EtcdCtl_init_def alloc_def)

lemma alloc_frame:
  assumes "alloc xs h = (a, h')"
  shows "a < next_addr h' \<and> cells h' a = xs \<and> next_addr h \<le> next_addr h'
       \<and> (\<forall>b<next_addr h. cells h' b = cells h b)"
  using assms by (auto simp: alloc_def)

lemma is_enterprise_iff:
  "is_enterprise E \<longleftrightarrow>
     (\<exists>a b c d. map_of E ''DCOS_ENTERPRISE'' = Some [a, b, c, d]
        \<and> (a = CHR ''t'' \<or> a = CHR ''T'') \<and> (b = CHR ''r'' \<or> b = CHR ''R'')
        \<and> (c = CHR ''u'' \<or> c = CHR ''U'') \<and> (d = CHR ''e'' \<or> d = CHR ''E''))"
proof (cases "map_of E ''DCOS_ENTERPRISE''")
  case None
  then have "getenv E ''DCOS_ENTERPRISE'' ''false'' = ''false''" by (simp add: getenv_def)
  then have "\<not> is_enterprise E" by (simp add: is_enterprise_def lower_true)
  then show ?thesis using None by simp
next
  case (Some v)
  then have "getenv E ''DCOS_ENTERPRISE'' ''false'' = v" by (simp add: getenv_def)
  then show ?thesis using Some by (simp add: is_enterprise_def lower_true)
qed

text \<open>
  C8. An \<open>EtcdCtl\<close> object is well set when its reference is allocated and the cell
  holds the base arguments of its construction; the constructor sets it well, and
  neither a call of \<open>run\<close> nor the allocation of a list by anyone changes that, so it
  holds at every call. On every call, whatever command list is given, \<open>run\<close> executes
  exactly those base arguments followed by the command, and leaves every list that
  existed before the call as it was, the base arguments and the caller's list among
  them. The two first base arguments are \<open>sudo\<close> and the path of \<open>etcdctl\<close>; the rest
  is the HTTPS endpoint with the three TLS flags when \<open>DCOS_ENTERPRISE\<close> is \<open>true\<close> in
  any mix of cases, and the HTTP endpoint alone otherwise.
\<close>

theorem EtcdCtl_run_argv:
  assumes base: "base_args self < next_addr h"
      and held: "cells h (base_args self) = get_base_args E cert_type"
      and cmd: "cmd < next_addr h"
  shows "(\<exists>h'. run os self cmd check env h =
            (subprocess_run os (get_base_args E cert_type @ cells h cmd) env check, h')
          \<and> base_args self < next_addr h'
          \<and> cells h' (base_args self) = get_base_args E cert_type
          \<and> cells h' cmd = cells h cmd
          \<and> next_addr h \<le> next_addr h' \<and> (\<forall>a<next_addr h. cells h' a = cells h a))
       \<and> (\<forall>xs a h'. alloc xs h = (a, h') \<longrightarrow>
             a < next_addr h' \<and> cells h' a = xs
             \<and> base_args self < next_addr h'
             \<and> cells h' (base_args self) = get_base_args E cert_type)
       \<and> (\<forall>h0 self0 h1. EtcdCtl_init E cert_type h0 = (self0, h1) \<longrightarrow>
             base_args self0 < next_addr h1
             \<and> cells h1 (base_args self0) = get_base_args E cert_type
             \<and> (\<forall>a<next_addr h0. a < next_addr h1 \<and> cells h1 a = cells h0 a))
       \<and> take 2 (get_base_args E cert_type) = [''sudo'', ETCDCTL_PATH]
       \<and> drop 2 (get_base_args E cert_type) =
           (if is_enterprise E then
              [''--endpoints=https://'' @ ETCD_ENDPOINTS,
               ''--cert=/run/dcos/pki/tls/certs/etcd-client-'' @ cert_type @ ''.crt'',
               ''--key=/run/dcos/pki/tls/private/etcd-client-'' @ cert_type @ ''.key'',
               ''--cacert='' @ CA_CERT]
            else [''--endpoints=http://'' @ ETCD_ENDPOINTS])
       \<and> (is_enterprise E \<longleftrightarrow>
            (\<exists>a b c d. map_of E ''DCOS_ENTERPRISE'' = Some [a, b, c, d]
               \<and> (a = CHR ''t'' \<or> a = CHR ''T'') \<and> (b = CHR ''r'' \<or> b = CHR ''R'')
               \<and> (c = CHR ''u'' \<or> c = CHR ''U'') \<and> (d = CHR ''e'' \<or> d = CHR ''E'')))"
proof -
  from run_frame [OF base cmd, of os check env] obtain h' where
    r: "run os self cmd check env h =
          (subprocess_run os (cells h (base_args self) @ cells h cmd) env check, h')"
    and f: "next_addr h \<le> next_addr h'" "\<forall>a<next_addr h. cells h' a = cells h a" by blast
  have 1: "\<exists>h'. run os self cmd check env h =
            (subprocess_run os (get_base_args E cert_type @ cells h cmd) env check, h')
          \<and> base_args self < next_addr h'
          \<and> cells h' (base_args self) = get_base_args E cert_type
          \<and> cells h' cmd = cells h cmd
          \<and> next_addr h \<le> next_addr h' \<and> (\<forall>a<next_addr h. cells h' a = cells h a)"
  proof (intro exI conjI)
    show "run os self cmd check env h =
            (subprocess_run os (get_base_args E cert_type @ cells h cmd) env check, h')"
      using r held by simp
    show "base_args self < next_addr h'" using base f(1) by simp
    show "cells h' (base_args self) = get_base_args E cert_type" using base f(2) held by simp
    show "cells h' cmd = cells h cmd" using cmd f(2) by simp
    show "next_addr h \<le> next_addr h'" by (rule f(1))
    show "\<forall>a<next_addr h. cells h' a = cells h a" by (rule f(2))
  qed
  have 2: "a < next_addr h1 \<and> cells h1 a = xs \<and> base_args self < next_addr h1
             \<and> cells h1 (base_args self) = get_base_args E cert_type"
    if "alloc xs h = (a, h1)" for xs a h1
    using alloc_frame [OF that] base held by auto
  have 3: "base_args self0 < next_addr h1
             \<and> cells h1 (base_args self0) = get_base_args E cert_type
             \<and> (\<forall>a<next_addr h0. a < next_addr h1 \<and> cells h1 a = cells h0 a)"
    if "EtcdCtl_init E cert_type h0 = (self0, h1)" for h0 self0 h1
    using init_frame [OF that] by auto
  have 4: "take 2 (get_base_args E cert_type) = [''sudo'', ETCDCTL_PATH]"
    by (simp add: get_base_args_def Let_def)
  have 5: "drop 2 (get_base_args E cert_type) =
           (if is_enterprise E then
              [''--endpoints=https://'' @ ETCD_ENDPOINTS,
               ''--cert=/run/dcos/pki/tls/certs/etcd-client-'' @ cert_type @ ''.crt'',
               ''--key=/run/dcos/pki/tls/private/etcd-client-'' @ cert_type @ ''.key'',
               ''--cacert='' @ CA_CERT]
            else [''--endpoints=http://'' @ ETCD_ENDPOINTS])"
    by (simp add: get_base_args_def Let_def)
  from 1 2 3 4 5 is_enterprise_iff [of E] show ?thesis by blast
qed


theorem EtcdCtl_run_argv_witness:
  "fst (run os_exit0 etcdctl1 0 True [] heap1) =
     subprocess_run os_exit0
       [''sudo'', ''/opt/mesosphere/bin/etcdctl'', ''--endpoints=http://127.0.0.1:2379'',
        ''member'', ''list''] [] True
   \<and> fst (run os_exit0 etcdctl1 cmd2 True [] heap3) =
     subprocess_run os_exit0
       [''sudo'', ''/opt/mesosphere/bin/etcdctl'', ''--endpoints=http://127.0.0.1:2379'',
        ''get'', ''/registry''] [] True
   \<and> cells (snd (run os_exit0 etcdctl1 cmd2 True [] heap3)) (base_args etcdctl1) =
       [''sudo'', ''/opt/mesosphere/bin/etcdctl'', ''--endpoints=http://127.0.0.1:2379'']"
proof -
  let ?g = "get_base_args [] ''root''"
  have g: "?g = [''sudo'', ''/opt/mesosphere/bin/etcdctl'', ''--endpoints=http://127.0.0.1:2379'']"
    by code_simp
  have b1: "base_args etcdctl1 < next_addr heap1" by code_simp
  have c1: "cells heap1 (base_args etcdctl1) = ?g" by code_simp
  have m1: "(0::nat) < next_addr heap1" by code_simp
  have l1: "cells heap1 0 = [''member'', ''list'']" by code_simp
  note t1 = EtcdCtl_run_argv [OF b1 c1 m1, of os_exit0 True "[]"]
  from t1 obtain h' where r1: "run os_exit0 etcdctl1 0 True [] heap1 =
      (subprocess_run os_exit0 (?g @ cells heap1 0) [] True, h')"
    and b2': "base_args etcdctl1 < next_addr h'" and c2': "cells h' (base_args etcdctl1) = ?g"
    by blast
  from r1 have h': "h' = heap2" by (simp add: heap2_def)
  from b2' c2' h' have b2: "base_args etcdctl1 < next_addr heap2"
    and c2: "cells heap2 (base_args etcdctl1) = ?g" by simp_all
  have m2: "(0::nat) < next_addr heap2" using b2 by simp
  have al: "alloc [''get'', ''/registry''] heap2 = (cmd2, heap3)"
    by (simp add: cmd2_def heap3_def)
  from EtcdCtl_run_argv [OF b2 c2 m2, of os_exit0 True "[]"] al
  have m3: "cmd2 < next_addr heap3" and l3: "cells heap3 cmd2 = [''get'', ''/registry'']"
    and b3: "base_args etcdctl1 < next_addr heap3" and c3: "cells heap3 (base_args etcdctl1) = ?g"
    by blast+
  from EtcdCtl_run_argv [OF b3 c3 m3, of os_exit0 True "[]"] obtain h3 where
    r3: "run os_exit0 etcdctl1 cmd2 True [] heap3 =
      (subprocess_run os_exit0 (?g @ cells heap3 cmd2) [] True, h3)"
    and c4: "cells h3 (base_args etcdctl1) = ?g" by blast
  from r1 r3 c4 show ?thesis by (simp add: g l1 l3)
qed

lemma etcdctl1_simps:
  "base_args etcdctl1 = Suc 0" "next_addr heap1 = 2"
  "cells heap1 (Suc 0) = [''sudo'', ''/opt/mesosphere/bin/etcdctl'', ''--endpoints=http://127.0.0.1:2379'']"
  "cells heap1 0 = [''member'', ''list'']"
proof -
  have e: "\<not> is_enterprise []" by code_simp
  show "base_args etcdctl1 = Suc 0" "next_addr heap1 = 2"
    by (simp_all add: etcdctl1_def heap1_def EtcdCtl_init_def alloc_def heap0_def)
  show "cells heap1 (Suc 0) = [''sudo'', ''/opt/mesosphere/bin/etcdctl'', ''--endpoints=http://127.0.0.1:2379'']"
    using e by (simp add: heap1_def EtcdCtl_init_def alloc_def heap0_def get_base_args_def Let_def
        ETCDCTL_PATH_def ETCD_ENDPOINTS_def)
  show "cells heap1 0 = [''member'', ''list'']"
    by (simp add: heap1_def EtcdCtl_init_def alloc_def heap0_def)
qed

text \<open>
  C3, as the code has it. When the child runs to completion, \<open>EtcdCtl.run\<close> hands back
  its exit code and the bytes of both streams unchanged: as the returned
  \<open>CompletedProcess\<close> when \<open>check\<close> is false or the exit code is 0, and inside the raised
  \<open>CalledProcessError\<close> when \<open>check\<close> is true (the default) and the exit code is not 0.
\<close>

theorem EtcdCtl_run_result:
  assumes "base_args self < next_addr h" and "cmd < next_addr h"
      and "os (cells h (base_args self) @ cells h cmd) env = Inr (rc, out, err)"
  shows "fst (run os self cmd check env h) =
           (if check \<and> rc \<noteq> 0
            then Inl (CalledProcessError rc (cells h (base_args self) @ cells h cmd) out err)
            else Inr \<lparr>cp_args = cells h (base_args self) @ cells h cmd, cp_returncode = rc,
                      cp_stdout = out, cp_stderr = err\<rparr>)"
proof -
  from run_eq [OF assms(1,2), of os check env] have
    "fst (run os self cmd check env h) =
       subprocess_run os (cells h (base_args self) @ cells h cmd) env check" by auto
  with assms(3) show ?thesis by (simp add: subprocess_run_def)
qed

theorem EtcdCtl_run_result_witness:
  "fst (run os_exit1 etcdctl1 0 False [] heap1) =
     Inr \<lparr>cp_args = [''sudo'', ''/opt/mesosphere/bin/etcdctl'', ''--endpoints=http://127.0.0.1:2379'',
                     ''member'', ''list''],
          cp_returncode = 1, cp_stdout = ''partial output'',
          cp_stderr = ''Error: context deadline exceeded''\<rparr>"
  using EtcdCtl_run_result [of etcdctl1 heap1 0 os_exit1 "[]" 1 "''partial output''"
      "''Error: context deadline exceeded''" False]
  by (simp add: etcdctl1_simps os_exit1_def)

text \<open>
  With the default \<open>check=True\<close> and \<open>env={}\<close>, a child that exits with status 1
  makes \<open>run\<close> raise: no completed process is returned.
\<close>

theorem EtcdCtl_run_default_raises:
  "fst (run os_exit1 etcdctl1 0 True [] heap1) =
     Inl (CalledProcessError 1
            [''sudo'', ''/opt/mesosphere/bin/etcdctl'', ''--endpoints=http://127.0.0.1:2379'',
             ''member'', ''list'']
            ''partial output'' ''Error: context deadline exceeded'')"
proof -
  have "fst (run os_exit1 etcdctl1 0 True [] heap1) =
          subprocess_run os_exit1 (cells heap1 (base_args etcdctl1) @ cells heap1 0) [] True"
    using run_eq [of etcdctl1 heap1 0 os_exit1 True "[]"] by (auto simp: etcdctl1_simps)
  then show ?thesis by (simp add: etcdctl1_simps subprocess_run_def os_exit1_def)
qed

subsection \<open>The release version\<close>

lemma decode_all_valid:
  "list_all (\<lambda>b. utf8_valid (map of_char b)) tags \<Longrightarrow> decode_all tags = Inr tags"
  by (induction tags) (auto simp: decode_def)

lemma show_int_nat: "show_int (int n) = show_nat n"
  by (simp add: show_int_def)

lemma get_version_valid:
  assumes "list_all (\<lambda>b. utf8_valid (map of_char b)) tags"
  shows "get_version now tags =
    Inr (strftime_Ymd now @ ''.'' @
         show_nat (length (filter (\<lambda>item. startswith item (strftime_Ymd now)) tags)))"
  using decode_all_valid [OF assms] by (simp add: get_version_def Let_def show_int_nat)

text \<open>
  C10, as the code has it. When every tag name of the repository is valid UTF-8 and
  exactly \<open>N\<close> of them start with today's UTC date \<open>YYYY.MM.DD\<close>, \<open>get_version\<close> returns
  that date, a dot and \<open>N\<close> in decimal: \<open>.0\<close> for the first release of a day, and
  one more for each further tag of that day.
\<close>

theorem get_version_counts:
  assumes valid: "list_all (\<lambda>b. utf8_valid (map of_char b)) tags"
      and count: "length (filter (\<lambda>item. startswith item (strftime_Ymd now)) tags) = N"
  shows "get_version now tags = Inr (strftime_Ymd now @ ''.'' @ show_nat N)
       \<and> (N = 0 \<longrightarrow> get_version now tags = Inr (strftime_Ymd now @ ''.0''))
       \<and> (\<forall>t. utf8_valid (map of_char t) \<and> startswith t (strftime_Ymd now) \<longrightarrow>
              get_version now (tags @ [t]) = Inr (strftime_Ymd now @ ''.'' @ show_nat (Suc N)))"
proof -
  have 1: "get_version now tags = Inr (strftime_Ymd now @ ''.'' @ show_nat N)"
    using get_version_valid [OF valid, of now] count by simp
  have z: "show_nat 0 = ''0''" by code_simp
  have 2: "N = 0 \<longrightarrow> get_version now tags = Inr (strftime_Ymd now @ ''.0'')"
    using 1 z by simp
  have 3: "get_version now (tags @ [t]) = Inr (strftime_Ymd now @ ''.'' @ show_nat (Suc N))"
    if "utf8_valid (map of_char t)" "startswith t (strftime_Ymd now)" for t
  proof -
    have "list_all (\<lambda>b. utf8_valid (map of_char b)) (tags @ [t])" using valid that(1) by simp
    from get_version_valid [OF this, of now] show ?thesis using count that(2) by simp
  qed
  from 1 2 3 show ?thesis by blast
qed

theorem get_version_counts_witness:
  "get_version today two_today_repo = Inr ''2018.07.04.2'' \<and>
   get_version today (two_today_repo @ [''2018.07.04.2'']) = Inr ''2018.07.04.3''"
proof -
  have v: "list_all (\<lambda>b. utf8_valid (map of_char b)) two_today_repo" by code_simp
  have c: "length (filter (\<lambda>item. startswith item (strftime_Ymd today)) two_today_repo) = 2"
    by code_simp
  have d: "strftime_Ymd today = ''2018.07.04''" by code_simp
  have s: "show_nat 2 = ''2''" "show_nat 3 = ''3''" by code_simp+
  have t: "utf8_valid (map of_char ''2018.07.04.2'')" "startswith ''2018.07.04.2'' ''2018.07.04''"
    by code_simp+
  note g = get_version_counts [OF v c]
  from g have 1: "get_version today two_today_repo = Inr ''2018.07.04.2''" by (simp add: d s)
  from g t have 2: "get_version today (two_today_repo @ [''2018.07.04.2'']) = Inr ''2018.07.04.3''"
    by (simp add: d s)
  from 1 2 show ?thesis by simp
qed

text \<open>
  A repository with a tag whose name is not UTF-8 gets no version: decoding the tag
  names raises \<open>UnicodeDecodeError\<close>.
\<close>

theorem get_version_raises_on_latin1_tag:
  "get_version today latin1_repo = Inl UnicodeDecodeError"
  by code_simp

subsection \<open>The \<open>create\<close> command\<close>

lemma started_append [simp]: "started (xs @ ys) = started xs @ started ys"
  by (induction xs rule: started.induct) auto

lemma started_not_start: "\<not> is_start ev \<Longrightarrow> started [ev] = []"
  by (cases ev) (auto simp: is_start_def)

lemma cut_at_Inr [simp]:
  "cut_at w xs v s (Inr x, s') \<longleftrightarrow> x = v \<and> trace s' = trace s @ xs \<and> docker s' = w @ started xs"
  by (simp add: cut_at_def)

lemma cut_at_Inl [simp]:
  "cut_at w xs v s (Inl e, s') \<longleftrightarrow>
     (\<exists>n. n < length xs \<and> trace s' = trace s @ take (Suc n) xs \<and> docker s' = w @ started (take n xs))"
  by (simp add: cut_at_def)

lemma followsD: "follows w c xs v \<Longrightarrow> docker s = w \<Longrightarrow> cut_at w xs v s (c s)"
  by (simp add: follows_def)

lemma follows_ret: "follows w (ret x) [] x"
  by (simp add: follows_def ret_def)

lemma follows_get_docker: "follows w get_docker [] w"
  by (simp add: follows_def get_docker_def)

lemma follows_call: "\<not> is_start ev \<Longrightarrow> follows w (call H ev) [ev] (returns H ev)"
  by (auto simp: follows_def call_def started_not_start split: option.splits)

lemma follows_check: "follows w (check_cluster_id_unique i ids) [Check_cluster_id_unique i ids] ()"
  by (auto simp: follows_def check_cluster_id_unique_def)

lemma follows_bind:
  assumes c: "follows w c xs v" and f: "follows (w @ started xs) (f v) ys u"
  shows "follows w (bind c f) (xs @ ys) u"
  unfolding follows_def
proof (intro allI impI)
  fix s :: state
  assume w: "docker s = w"
  obtain r s1 where cs: "c s = (r, s1)" by (cases "c s")
  from followsD [OF c w] cs have c1: "cut_at w xs v s (r, s1)" by simp
  show "cut_at w (xs @ ys) u s (bind c f s)"
  proof (cases r)
    case (Inl e)
    from c1 have "\<exists>n. n < length xs \<and> trace s1 = trace s @ take (Suc n) xs
        \<and> docker s1 = w @ started (take n xs)" unfolding Inl cut_at_Inl .
    then obtain n where n: "n < length xs" "trace s1 = trace s @ take (Suc n) xs"
      "docker s1 = w @ started (take n xs)" by blast
    have b: "bind c f s = (Inl e, s1)" using Inl cs by (simp add: bind_def)
    show ?thesis unfolding b cut_at_Inl
    proof (intro exI conjI)
      show "n < length (xs @ ys)" using n(1) by simp
      show "trace s1 = trace s @ take (Suc n) (xs @ ys)" using n(1,2) by simp
      show "docker s1 = w @ started (take n (xs @ ys))" using n(1,3) by simp
    qed
  next
    case (Inr x)
    from c1 have x: "x = v" "trace s1 = trace s @ xs" "docker s1 = w @ started xs"
      unfolding Inr cut_at_Inr by blast+
    obtain r2 s2 where fs: "f v s1 = (r2, s2)" by (cases "f v s1")
    from followsD [OF f x(3)] fs have f1: "cut_at (w @ started xs) ys u s1 (r2, s2)" by simp
    have b: "bind c f s = (r2, s2)" using Inr cs fs x(1) by (simp add: bind_def)
    show ?thesis
    proof (cases r2)
      case (Inl e)
      from f1 have "\<exists>n. n < length ys \<and> trace s2 = trace s1 @ take (Suc n) ys
          \<and> docker s2 = (w @ started xs) @ started (take n ys)" unfolding Inl cut_at_Inl .
      then obtain n where n: "n < length ys" "trace s2 = trace s1 @ take (Suc n) ys"
        "docker s2 = (w @ started xs) @ started (take n ys)" by blast
      show ?thesis unfolding b Inl cut_at_Inl
      proof (intro exI conjI)
        show "length xs + n < length (xs @ ys)" using n(1) by simp
        show "trace s2 = trace s @ take (Suc (length xs + n)) (xs @ ys)" using n(2) x(2) by simp
        show "docker s2 = w @ started (take (length xs + n) (xs @ ys))" using n(3) by simp
      qed
    next
      case (Inr y)
      from f1 have y: "y = u" "trace s2 = trace s1 @ ys" "docker s2 = (w @ started xs) @ started ys"
        unfolding Inr cut_at_Inr by blast+
      show ?thesis unfolding b Inr cut_at_Inr using y x(2) by simp
    qed
  qed
qed

lemma follows_for_each:
  assumes "\<And>x w. follows w (body x) (g x) ()"
  shows "follows w (for_each xs body) (concat (map g xs)) ()"
proof (induction xs arbitrary: w)
  case Nil
  show ?case by (simp add: follows_ret)
next
  case (Cons x xs)
  show ?case using follows_bind [OF assms Cons.IH] by simp
qed


lemma follows_bind_eq:
  assumes "follows w c xs v" and "follows (w @ started xs) (f v) ys u" and "zs = xs @ ys"
  shows "follows w (bind c f) zs u"
  unfolding assms(3) by (rule follows_bind [where v = v]) (rule assms)+

lemma concat_singletons: "concat (map (\<lambda>x. [g x]) xs) = map g xs"
  by (induction xs) auto

lemma follows_existing:
  "follows w (existing_cluster_ids K H) [Existing_cluster_ids] (cluster_ids_of K w)"
proof -
  have "follows w (existing_cluster_ids K H) ([Existing_cluster_ids] @ [] @ [])
          (cluster_ids_of K (w @ started [Existing_cluster_ids]))"
    unfolding existing_cluster_ids_def
    apply (rule follows_bind)
     apply (rule follows_call)
     apply (simp add: is_start_def)
    apply (rule follows_bind)
     apply (rule follows_get_docker)
    apply (rule follows_ret)
    done
  then show ?thesis by simp
qed

lemma follows_start_container: "follows w (start_container H c) [Start_container c] ()"
  by (auto simp: follows_def start_container_def bind_def call_def split: option.splits)

lemma follows_create_cluster:
  "follows w (create_cluster H b m a p dm) (provision_events b m a p dm) (cluster_of b m a p)"
  unfolding create_cluster_def provision_events_def
  apply (rule follows_bind_eq)
    apply (rule follows_call)
    apply (simp add: is_start_def)
   apply (rule follows_bind)
    apply (rule follows_for_each)
    apply (rule follows_start_container)
   apply (rule follows_ret)
  apply (simp add: concat_singletons)
  done

lemma follows_add_authorized_key:
  "follows w (add_authorized_key H cl pk) (auth_events H cl pk) ()"
  unfolding add_authorized_key_def auth_events_def
  apply (rule follows_for_each)
  apply (rule follows_bind_eq)
    apply (rule follows_call)
    apply (simp add: is_start_def)
   apply (rule follows_bind)
    apply (rule follows_call)
    apply (simp add: is_start_def)
   apply (rule follows_bind)
    apply (rule follows_call)
    apply (simp add: is_start_def)
   apply (rule follows_ret)
  apply simp
  done

lemma follows_send_node:
  "follows w (for_each pairs (\<lambda>path_pair.
       bind (call H (Send_file node (fst path_pair) (snd path_pair))) (\<lambda>_. ret ())))
     (map (\<lambda>pp. Send_file node (fst pp) (snd pp)) pairs) ()"
proof -
  have "follows w (for_each pairs (\<lambda>path_pair.
       bind (call H (Send_file node (fst path_pair) (snd path_pair))) (\<lambda>_. ret ())))
     (concat (map (\<lambda>pp. [Send_file node (fst pp) (snd pp)]) pairs)) ()"
    apply (rule follows_for_each)
    apply (rule follows_bind_eq)
      apply (rule follows_call)
      apply (simp add: is_start_def)
     apply (rule follows_ret)
    apply simp
    done
  then show ?thesis by (simp add: concat_singletons)
qed

lemma follows_send_files:
  "follows w (send_files H cl pairs) (send_events cl pairs) ()"
  unfolding send_files_def send_events_def
  apply (rule follows_for_each)
  apply (rule follows_send_node)
  done

lemma follows_create: "follows w (create K H a) (create_plan K H a w) ()"
  unfolding create_def create_plan_def Let_def
  apply (rule follows_bind_eq)
    apply (rule follows_existing)
   apply (rule follows_bind)
    apply (rule follows_check)
   apply (rule follows_bind)
    apply (rule follows_call)
    apply (simp add: is_start_def)
   apply (rule follows_bind)
    apply (rule follows_call)
    apply (simp add: is_start_def)
   apply (rule follows_bind)
    apply (rule follows_call)
    apply (simp add: is_start_def)
   apply (rule follows_bind)
    apply (rule follows_create_cluster)
   apply (rule follows_bind)
    apply (rule follows_add_authorized_key)
   apply (rule follows_bind)
    apply (rule follows_send_files)
   apply (rule follows_bind)
    apply (rule follows_call)
    apply (simp add: is_start_def)
   apply (rule follows_bind)
    apply (rule follows_call)
    apply (simp add: is_start_def)
   apply (rule follows_bind)
    apply (rule follows_call)
    apply (simp add: is_start_def)
   apply (rule follows_ret)
  apply simp
  done


lemma create_run:
  assumes "create K H a \<lparr>docker = w, trace = []\<rparr> = (r, s)"
  shows "\<exists>n. 0 < n \<and> n \<le> length (create_plan K H a w) \<and> trace s = take n (create_plan K H a w)
           \<and> (r = Inr () \<longrightarrow> n = length (create_plan K H a w))
           \<and> (\<exists>k\<le>n. docker s = w @ started (take k (create_plan K H a w)))
           \<and> (r = Inr () \<longrightarrow> docker s = w @ started (create_plan K H a w))"
proof -
  let ?p = "create_plan K H a w"
  have c: "cut_at w ?p () \<lparr>docker = w, trace = []\<rparr> (r, s)"
    using followsD [OF follows_create, of "\<lparr>docker = w, trace = []\<rparr>" w K H a] assms by simp
  have ne: "0 < length ?p" by (simp add: create_plan_def Let_def)
  show ?thesis
  proof (cases r)
    case (Inl e)
    with c obtain n where n: "n < length ?p" "trace s = take (Suc n) ?p"
      "docker s = w @ started (take n ?p)" by auto
    show ?thesis
    proof (intro exI conjI)
      show "0 < Suc n" by simp
      show "Suc n \<le> length ?p" using n(1) by simp
      show "trace s = take (Suc n) ?p" by (rule n(2))
      show "r = Inr () \<longrightarrow> Suc n = length ?p" using Inl by simp
      show "n \<le> Suc n" by simp
      show "docker s = w @ started (take n ?p)" by (rule n(3))
      show "r = Inr () \<longrightarrow> docker s = w @ started ?p" using Inl by simp
    qed
  next
    case (Inr u)
    with c have t: "trace s = ?p" "docker s = w @ started ?p" by auto
    show ?thesis
    proof (intro exI conjI)
      show "0 < length ?p" by (rule ne)
      show "length ?p \<le> length ?p" by simp
      show "trace s = take (length ?p) ?p" using t(1) by simp
      show "r = Inr () \<longrightarrow> length ?p = length ?p" by simp
      show "length ?p \<le> length ?p" by simp
      show "docker s = w @ started (take (length ?p) ?p)" using t(2) by simp
      show "r = Inr () \<longrightarrow> docker s = w @ started ?p" using t(2) by simp
    qed
  qed
qed

lemma split_after_prefix:
  assumes "pre @ R = before @ ev # Z" and "\<forall>x\<in>set pre. \<not> P x" and "P ev"
  shows "\<exists>b. before = pre @ b"
  using assms
proof (induction pre arbitrary: before)
  case Nil
  then show ?case by simp
next
  case (Cons x pre)
  from Cons.prems obtain b' where b: "before = x # b'" "pre @ R = b' @ ev # Z"
    by (cases before) auto
  from Cons.IH [OF b(2)] Cons.prems(2,3) b(1) show ?case by auto
qed

lemma split_unique:
  assumes "pre @ c # R = before @ ev # Z" and "\<forall>x\<in>set pre. \<not> P x" and "\<forall>x\<in>set R. \<not> P x"
    and "P ev"
  shows "before = pre \<and> ev = c \<and> Z = R"
proof -
  from split_after_prefix [OF assms(1,2,4)] obtain b where b: "before = pre @ b" by blast
  with assms(1) have e: "c # R = b @ ev # Z" by simp
  show ?thesis
  proof (cases b)
    case Nil
    with e b show ?thesis by simp
  next
    case (Cons y b')
    with e have "R = b' @ ev # Z" by simp
    then have "ev \<in> set R" by simp
    with assms(3,4) show ?thesis by blast
  qed
qed


lemma no_install_in_loops:
  "\<forall>x\<in>set (provision_events b m a p dm). \<not> is_install x"
  "\<forall>x\<in>set (auth_events H cl pk). \<not> is_install x"
  "\<forall>x\<in>set (send_events cl pairs). \<not> is_install x"
  by (auto simp: provision_events_def auth_events_def send_events_def is_install_def)

lemma create_plan_tail:
  "\<exists>A gc inst post.
      create_plan K H a w = (A @ [gc]) @ inst # [post]
      \<and> (\<forall>x\<in>set (A @ [gc]). \<not> is_install x) \<and> is_get_config gc \<and> is_install inst
      \<and> \<not> is_install post \<and> \<not> is_send_file post
      \<and> set (send_events (cluster_of (docker_backend_of K a) (masters a) (agents a) (public_agents a))
                 (copy_to_master a)) \<subseteq> set A"
proof -
  define dm where "dm = get_doctor_message K (command_path K ''doctor'')"
  define ssh where "ssh = path_join (workspace_dir a) ''ssh''"
  define cl where "cl = cluster_of (docker_backend_of K a) (masters a) (agents a) (public_agents a)"
  define cc where "cc = \<lparr>cc_cluster_id = cluster_id a, cc_transport = transport a\<rparr>"
  define giv where "giv = Get_install_variant (variant a) (installer a) (workspace_dir a) dm"
  define gc where "gc = Get_config cc (extra_config a) (returns H giv) (security_mode a) (license_key a)"
  define inst where "inst = Install_dcos_from_path cc (returns H gc) (ip_detect_path K) dm
      (installer a) (genconf_dir a)"
  define post where "post = Run_post_install_steps cl (cluster_id a) (returns H gc)
      (command_path K ''doctor'') (transport a = SSH) (command_path K ''wait'') (wait_for_dcos a)"
  define A where "A = [Existing_cluster_ids,
          Check_cluster_id_unique (cluster_id a) (cluster_ids_of K w),
          Mkdir ssh,
          Write_key_pair (path_join ssh ''id_rsa.pub'') (path_join ssh ''id_rsa''),
          giv]
         @ provision_events (docker_backend_of K a) (masters a) (agents a) (public_agents a) dm
         @ auth_events H cl (path_join ssh ''id_rsa.pub'')
         @ send_events cl (copy_to_master a)"
  have 1: "create_plan K H a w = (A @ [gc]) @ inst # [post]"
    by (simp add: create_plan_def Let_def A_def gc_def inst_def post_def giv_def cc_def cl_def
        ssh_def dm_def)
  have 2: "\<forall>x\<in>set (A @ [gc]). \<not> is_install x"
    using no_install_in_loops
    by (auto simp: A_def gc_def giv_def is_install_def)
  have 3: "is_get_config gc" "is_install inst" "\<not> is_install post" "\<not> is_send_file post"
    by (simp_all add: gc_def inst_def post_def is_get_config_def is_install_def is_send_file_def)
  have 4: "set (send_events cl (copy_to_master a)) \<subseteq> set A" by (auto simp: A_def)
  from 1 2 3 4 show ?thesis unfolding cl_def by blast
qed


lemma send_events_mem:
  "node \<in> set (cl_masters cl) \<Longrightarrow> pp \<in> set pairs \<Longrightarrow>
     Send_file node (fst pp) (snd pp) \<in> set (send_events cl pairs)"
  by (auto simp: send_events_def)

lemma all_returned_Nil [simp]: "all_returned H t []"
  by (simp add: all_returned_def)

lemma all_returned_append:
  assumes "all_returned H t xs" and "all_returned H (t @ xs) ys"
  shows "all_returned H t (xs @ ys)"
  unfolding all_returned_def
proof (intro allI impI)
  fix i assume i: "i < length (xs @ ys)" and c: "\<not> is_check ((xs @ ys) ! i)"
  show "raises H (t @ take i (xs @ ys)) ((xs @ ys) ! i) = None"
  proof (cases "i < length xs")
    case True
    with assms(1) c show ?thesis by (simp add: all_returned_def nth_append)
  next
    case False
    then have j: "i - length xs < length ys" using i by simp
    from False c have "\<not> is_check (ys ! (i - length xs))" by (simp add: nth_append)
    with assms(2) j have "raises H ((t @ xs) @ take (i - length xs) ys) (ys ! (i - length xs)) = None"
      by (simp add: all_returned_def)
    with False show ?thesis by (simp add: nth_append)
  qed
qed

lemma honest_ret: "honest H (ret x)"
  by (simp add: honest_def ret_def)

lemma honest_get_docker: "honest H get_docker"
  by (simp add: honest_def get_docker_def)

lemma honest_call: "honest H (call H ev)"
  unfolding honest_def
proof (intro allI impI)
  fix s r s' assume c: "call H ev s = (r, s')"
  show "\<exists>evs. trace s' = trace s @ evs
           \<and> (case r of Inr _ \<Rightarrow> all_returned H (trace s) evs
               | Inl _ \<Rightarrow> evs \<noteq> [] \<and> all_returned H (trace s) (butlast evs))"
  proof (cases "raises H (trace s) ev")
    case None
    with c have "r = Inr (returns H ev)" "trace s' = trace s @ [ev]" by (auto simp: call_def)
    moreover have "all_returned H (trace s) [ev]" using None by (simp add: all_returned_def)
    ultimately show ?thesis by auto
  next
    case (Some e)
    with c have "r = Inl e" "trace s' = trace s @ [ev]" by (auto simp: call_def)
    then show ?thesis by auto
  qed
qed

lemma honest_check: "honest H (check_cluster_id_unique i ids)"
  by (auto simp: honest_def check_cluster_id_unique_def all_returned_def is_check_def)

lemma honest_bind:
  assumes c: "honest H c" and f: "\<And>x. honest H (f x)"
  shows "honest H (bind c f)"
  unfolding honest_def
proof (intro allI impI)
  fix s r s' assume b: "bind c f s = (r, s')"
  obtain r1 s1 where cs: "c s = (r1, s1)" by (cases "c s")
  from c cs obtain evs1 where e1: "trace s1 = trace s @ evs1"
    and k1: "case r1 of Inr _ \<Rightarrow> all_returned H (trace s) evs1
             | Inl _ \<Rightarrow> evs1 \<noteq> [] \<and> all_returned H (trace s) (butlast evs1)"
    unfolding honest_def by blast
  show "\<exists>evs. trace s' = trace s @ evs
           \<and> (case r of Inr _ \<Rightarrow> all_returned H (trace s) evs
               | Inl _ \<Rightarrow> evs \<noteq> [] \<and> all_returned H (trace s) (butlast evs))"
  proof (cases r1)
    case (Inl e)
    with b cs have "r = Inl e" "s' = s1" by (auto simp: bind_def)
    with e1 k1 Inl show ?thesis by auto
  next
    case (Inr x)
    with b cs have fx: "f x s1 = (r, s')" by (simp add: bind_def)
    from f [of x] fx obtain evs2 where e2: "trace s' = trace s1 @ evs2"
      and k2: "case r of Inr _ \<Rightarrow> all_returned H (trace s1) evs2
               | Inl _ \<Rightarrow> evs2 \<noteq> [] \<and> all_returned H (trace s1) (butlast evs2)"
      unfolding honest_def by blast
    from k1 Inr have a1: "all_returned H (trace s) evs1" by simp
    have t: "trace s' = trace s @ (evs1 @ evs2)" using e1 e2 by simp
    show ?thesis
    proof (cases r)
      case (Inl e)
      with k2 have n: "evs2 \<noteq> []" and a2: "all_returned H (trace s @ evs1) (butlast evs2)"
        using e1 by simp_all
      from n have "butlast (evs1 @ evs2) = evs1 @ butlast evs2" by (simp add: butlast_append)
      with all_returned_append [OF a1 a2] have "all_returned H (trace s) (butlast (evs1 @ evs2))"
        by simp
      with t n Inl show ?thesis by auto
    next
      case (Inr y)
      with k2 have a2: "all_returned H (trace s @ evs1) evs2" using e1 by simp
      from all_returned_append [OF a1 a2] t Inr show ?thesis by auto
    qed
  qed
qed

lemma honest_for_each:
  assumes "\<And>x. honest H (body x)"
  shows "honest H (for_each xs body)"
  by (induction xs) (auto intro: honest_ret honest_bind assms)

lemma honest_start_container: "honest H (start_container H c)"
  unfolding start_container_def
proof (rule honest_bind [OF honest_call])
  fix x :: string
  show "honest H (\<lambda>s. (Inr (), s\<lparr>docker := docker s @ [c]\<rparr>))"
    by (simp add: honest_def)
qed

lemma honest_create: "honest H (create K H a)"
  unfolding create_def Let_def existing_cluster_ids_def create_cluster_def add_authorized_key_def
    send_files_def
  by (intro honest_bind honest_for_each honest_call honest_check honest_ret honest_get_docker
      honest_start_container)


lemma create_id_taken:
  assumes "cluster_id a \<in> set (cluster_ids_of K w)"
  shows "create K H a \<lparr>docker = w, trace = t\<rparr> =
     (case raises H t Existing_cluster_ids of
        Some e \<Rightarrow> (Inl e, \<lparr>docker = w, trace = t @ [Existing_cluster_ids]\<rparr>)
      | None \<Rightarrow>
          (Inl (BadParameter (''A cluster with the id '' @ cluster_id a @ '' already exists.'')),
           \<lparr>docker = w,
            trace = t @ [Existing_cluster_ids,
                         Check_cluster_id_unique (cluster_id a) (cluster_ids_of K w)]\<rparr>))"
  using assms
  by (simp add: create_def bind_def existing_cluster_ids_def call_def get_docker_def ret_def
      check_cluster_id_unique_def split: option.splits)

lemma all_returned_prefix:
  assumes "all_returned H t (xs @ ys)"
  shows "all_returned H t xs"
  unfolding all_returned_def
proof (intro allI impI)
  fix i assume i: "i < length xs" and c: "\<not> is_check (xs ! i)"
  from i have "i < length (xs @ ys)" "(xs @ ys) ! i = xs ! i" "take i (xs @ ys) = take i xs"
    by (simp_all add: nth_append)
  moreover from assms have "\<forall>j<length (xs @ ys). \<not> is_check ((xs @ ys) ! j) \<longrightarrow>
      raises H (t @ take j (xs @ ys)) ((xs @ ys) ! j) = None"
    unfolding all_returned_def .
  ultimately show "raises H (t @ take i xs) (xs ! i) = None" using c by metis
qed

lemma create_before_returned:
  assumes run: "create K H a \<lparr>docker = w, trace = []\<rparr> = (r, s)"
      and split: "trace s = before @ ev # after"
  shows "\<forall>i<length before. \<not> is_check (before ! i) \<longrightarrow>
           raises H (take i before) (before ! i) = None"
proof -
  have "honest H (create K H a)" by (rule honest_create)
  then have "\<exists>evs. trace s = trace \<lparr>docker = w, trace = []\<rparr> @ evs
           \<and> (case r of Inr _ \<Rightarrow> all_returned H (trace \<lparr>docker = w, trace = []\<rparr>) evs
               | Inl _ \<Rightarrow> evs \<noteq> []
                   \<and> all_returned H (trace \<lparr>docker = w, trace = []\<rparr>) (butlast evs))"
    unfolding honest_def using run by blast
  then obtain evs where
    e: "trace s = [] @ evs"
    and k: "\<And>y. r = Inr y \<Longrightarrow> all_returned H [] evs"
      "\<And>x. r = Inl x \<Longrightarrow> all_returned H [] (butlast evs)"
    by (auto split: sum.splits)
  from e split have evs: "evs = before @ ev # after" by simp
  have bl: "butlast evs = before @ butlast (ev # after)" unfolding evs by (simp add: butlast_append)
  have "all_returned H [] (butlast evs)"
  proof (cases r)
    case (Inl x)
    then show ?thesis by (rule k(2))
  next
    case (Inr y)
    then have "all_returned H [] evs" by (rule k(1))
    moreover have "evs \<noteq> []" unfolding evs by simp
    then have "butlast evs @ [last evs] = evs" by (rule append_butlast_last_id)
    ultimately have "all_returned H [] (butlast evs @ [last evs])" by (simp only:)
    then show ?thesis by (rule all_returned_prefix)
  qed
  then have "all_returned H [] (before @ butlast (ev # after))" unfolding bl .
  then have "all_returned H [] before" by (rule all_returned_prefix)
  then show ?thesis by (simp add: all_returned_def)
qed

lemma create_install_id_free:
  assumes run: "create K H a \<lparr>docker = w, trace = []\<rparr> = (r, s)"
      and ev: "ev \<in> set (trace s)" "is_install ev"
  shows "cluster_id a \<notin> set (cluster_ids_of K w)"
proof
  assume "cluster_id a \<in> set (cluster_ids_of K w)"
  from create_id_taken [OF this, of H "[]"] run
  have "\<forall>x\<in>set (trace s). \<not> is_install x"
    by (auto simp: is_install_def split: option.splits)
  with ev show False by blast
qed

text \<open>
  C4. In every run of \<open>create\<close>, when the installer is invoked every requested file
  has been sent to every master before, and every call made before the installer
  returned: the transfers among them, and the check of the id, which found the id
  free. No file is sent after, the call just before is the generation of the
  configuration, and the installer is invoked once; a run that completes does invoke
  it.
\<close>

theorem create_copies_before_install:
  assumes run: "create K H a \<lparr>docker = w, trace = []\<rparr> = (r, s)"
  shows "(\<forall>before ev after. trace s = before @ ev # after \<and> is_install ev \<longrightarrow>
            (\<forall>node\<in>set (cl_masters (cluster_of (docker_backend_of K a) (masters a) (agents a)
                                         (public_agents a))).
               \<forall>pp\<in>set (copy_to_master a). Send_file node (fst pp) (snd pp) \<in> set before)
            \<and> (\<forall>i<length before. \<not> is_check (before ! i) \<longrightarrow>
                  raises H (take i before) (before ! i) = None)
            \<and> cluster_id a \<notin> set (cluster_ids_of K w)
            \<and> (\<forall>e\<in>set after. \<not> is_send_file e)
            \<and> (\<forall>e\<in>set before \<union> set after. \<not> is_install e)
            \<and> before \<noteq> [] \<and> is_get_config (last before))
       \<and> (r = Inr () \<longrightarrow> (\<exists>before ev after. trace s = before @ ev # after \<and> is_install ev))"
proof -
  let ?p = "create_plan K H a w"
  let ?cl = "cluster_of (docker_backend_of K a) (masters a) (agents a) (public_agents a)"
  from create_plan_tail [of K H a w] obtain A gc inst post where
    p: "?p = (A @ [gc]) @ inst # [post]"
    and A: "\<forall>x\<in>set (A @ [gc]). \<not> is_install x"
    and k: "is_get_config gc" "is_install inst" "\<not> is_install post" "\<not> is_send_file post"
    and sends: "set (send_events ?cl (copy_to_master a)) \<subseteq> set A"
    by blast
  from create_run [OF run] obtain n where
    n: "trace s = take n ?p" "r = Inr () \<longrightarrow> n = length ?p" by blast
  have 1: "(\<forall>node\<in>set (cl_masters ?cl).
               \<forall>pp\<in>set (copy_to_master a). Send_file node (fst pp) (snd pp) \<in> set before)
            \<and> (\<forall>i<length before. \<not> is_check (before ! i) \<longrightarrow>
                  raises H (take i before) (before ! i) = None)
            \<and> cluster_id a \<notin> set (cluster_ids_of K w)
            \<and> (\<forall>e\<in>set after. \<not> is_send_file e)
            \<and> (\<forall>e\<in>set before \<union> set after. \<not> is_install e)
            \<and> before \<noteq> [] \<and> is_get_config (last before)"
    if split: "trace s = before @ ev # after" and ev: "is_install ev" for before ev after
  proof -
    define rest where "rest = drop n ?p"
    have "take n ?p @ rest = ?p" unfolding rest_def by (rule append_take_drop_id)
    moreover have "take n ?p = before @ ev # after" using n(1) split by simp
    ultimately have "(before @ ev # after) @ rest = ?p" by (simp only:)
    then have e: "?p = before @ ev # (after @ rest)" by simp
    have "(A @ [gc]) @ inst # [post] = before @ ev # (after @ rest)"
      unfolding p [symmetric] by (rule e)
    from split_unique [OF this, of is_install] A k(3) ev
    have u: "before = A @ [gc]" "ev = inst" "after @ rest = [post]" by auto
    from u(3) have after: "set after \<subseteq> {post}"
      by (cases after) (auto simp: Cons_eq_append_conv)
    have "\<forall>node\<in>set (cl_masters ?cl).
               \<forall>pp\<in>set (copy_to_master a). Send_file node (fst pp) (snd pp) \<in> set before"
      using sends send_events_mem [of _ ?cl _ "copy_to_master a"] u(1) by auto
    moreover have "\<forall>i<length before. \<not> is_check (before ! i) \<longrightarrow>
                  raises H (take i before) (before ! i) = None"
      by (rule create_before_returned [OF run split])
    moreover have "cluster_id a \<notin> set (cluster_ids_of K w)"
      using create_install_id_free [OF run _ ev] split by simp
    moreover have "\<forall>e\<in>set after. \<not> is_send_file e" using after k(4) by auto
    moreover have "\<forall>e\<in>set before \<union> set after. \<not> is_install e"
      using A u(1) after k(3) by auto
    moreover have "before \<noteq> [] \<and> is_get_config (last before)" using u(1) k(1) by simp
    ultimately show ?thesis by blast
  qed
  have 2: "\<exists>before ev after. trace s = before @ ev # after \<and> is_install ev" if "r = Inr ()"
  proof -
    from that n have "trace s = (A @ [gc]) @ inst # [post]" using p by simp
    with k(2) show ?thesis by blast
  qed
  from 1 2 show ?thesis by blast
qed

theorem create_copies_before_install_witness:
  "fst (create K0 H0 args0 s0) = Inr ()
   \<and> is_install (trace (snd (create K0 H0 args0 s0)) ! 12)
   \<and> Send_file ''dcos-e2e-test1-master-0'' ''/tmp/a'' ''/etc/a''
        \<in> set (take 12 (trace (snd (create K0 H0 args0 s0))))
   \<and> trace (snd (create K0 H0 args0 s0)) ! 10 =
        Send_file ''dcos-e2e-test1-master-0'' ''/tmp/a'' ''/etc/a''
   \<and> raises H0 (take 10 (trace (snd (create K0 H0 args0 s0))))
        (Send_file ''dcos-e2e-test1-master-0'' ''/tmp/a'' ''/etc/a'') = None
   \<and> is_get_config (last (take 12 (trace (snd (create K0 H0 args0 s0)))))
   \<and> fst (create K0 H1 args0 s0) = Inl (OSError ''send_file'')
   \<and> filter is_install (trace (snd (create K0 H1 args0 s0))) = []"
proof -
  let ?t = "trace (snd (create K0 H0 args0 s0))"
  let ?sf = "Send_file ''dcos-e2e-test1-master-0'' ''/tmp/a'' ''/etc/a''"
  have run: "create K0 H0 args0 \<lparr>docker = [], trace = []\<rparr>
      = (fst (create K0 H0 args0 s0), snd (create K0 H0 args0 s0))"
    by (simp add: s0_def)
  have r: "fst (create K0 H0 args0 s0) = Inr ()" by code_simp
  have len: "length ?t = 14" by code_simp
  have inst: "is_install (?t ! 12)" by code_simp
  have t10: "?t ! 10 = ?sf" by code_simp
  have split: "?t = take 12 ?t @ (?t ! 12) # drop 13 ?t"
    using id_take_nth_drop [of 12 ?t] len by simp
  have node: "''dcos-e2e-test1-master-0''
      \<in> set (cl_masters (cluster_of (docker_backend_of K0 args0) (masters args0) (agents args0)
                         (public_agents args0)))" by code_simp
  have pp: "(''/tmp/a'', ''/etc/a'') \<in> set (copy_to_master args0)" by code_simp
  from create_copies_before_install [OF run] split inst
  have c: "(\<forall>node\<in>set (cl_masters (cluster_of (docker_backend_of K0 args0) (masters args0)
                                     (agents args0) (public_agents args0))).
           \<forall>pp\<in>set (copy_to_master args0). Send_file node (fst pp) (snd pp) \<in> set (take 12 ?t))
        \<and> (\<forall>i<length (take 12 ?t). \<not> is_check (take 12 ?t ! i) \<longrightarrow>
              raises H0 (take i (take 12 ?t)) (take 12 ?t ! i) = None)
        \<and> is_get_config (last (take 12 ?t))"
    by blast
  from c node pp have 1: "?sf \<in> set (take 12 ?t)" by fastforce
  have "(10::nat) < length (take 12 ?t)" using len by simp
  moreover have "take 12 ?t ! 10 = ?sf" using t10 by simp
  moreover have "\<not> is_check ?sf" by (simp add: is_check_def)
  ultimately have "raises H0 (take 10 (take 12 ?t)) ?sf = None" using c by metis
  then have 2: "raises H0 (take 10 ?t) ?sf = None" by simp
  have 3: "fst (create K0 H1 args0 s0) = Inl (OSError ''send_file'')" by code_simp
  have 4: "filter is_install (trace (snd (create K0 H1 args0 s0))) = []" by code_simp
  from r inst 1 t10 2 c 3 4 show ?thesis by blast
qed

lemma create_plan_head:
  "\<exists>c R. create_plan K H a w =
       [Existing_cluster_ids,
        Check_cluster_id_unique (cluster_id a) (cluster_ids_of K w),
        Mkdir (path_join (workspace_dir a) ''ssh''),
        Write_key_pair (path_join (path_join (workspace_dir a) ''ssh'') ''id_rsa.pub'')
          (path_join (path_join (workspace_dir a) ''ssh'') ''id_rsa''),
        Get_install_variant (variant a) (installer a) (workspace_dir a)
          (get_doctor_message K (command_path K ''doctor''))] @ c # R
     \<and> is_create_cluster c \<and> (\<forall>x\<in>set R. \<not> is_create_cluster x)"
proof -
  define dm where "dm = get_doctor_message K (command_path K ''doctor'')"
  define b where "b = docker_backend_of K a"
  define cl where "cl = cluster_of b (masters a) (agents a) (public_agents a)"
  define cc where "cc = \<lparr>cc_cluster_id = cluster_id a, cc_transport = transport a\<rparr>"
  define gc where "gc = Get_config cc (extra_config a)
      (returns H (Get_install_variant (variant a) (installer a) (workspace_dir a) dm))
      (security_mode a) (license_key a)"
  define tail3 where "tail3 = [gc,
      Install_dcos_from_path cc (returns H gc) (ip_detect_path K) dm (installer a) (genconf_dir a),
      Run_post_install_steps cl (cluster_id a) (returns H gc) (command_path K ''doctor'')
        (transport a = SSH) (command_path K ''wait'') (wait_for_dcos a)]"
  define R where "R = map Start_container (nodes_of b Master (masters a) @ nodes_of b Agent (agents a)
        @ nodes_of b PublicAgent (public_agents a))
      @ auth_events H cl (path_join (path_join (workspace_dir a) ''ssh'') ''id_rsa.pub'')
      @ send_events cl (copy_to_master a) @ tail3"
  have 1: "create_plan K H a w =
       [Existing_cluster_ids,
        Check_cluster_id_unique (cluster_id a) (cluster_ids_of K w),
        Mkdir (path_join (workspace_dir a) ''ssh''),
        Write_key_pair (path_join (path_join (workspace_dir a) ''ssh'') ''id_rsa.pub'')
          (path_join (path_join (workspace_dir a) ''ssh'') ''id_rsa''),
        Get_install_variant (variant a) (installer a) (workspace_dir a) dm]
       @ Create_cluster b (masters a) (agents a) (public_agents a) dm # R"
    unfolding R_def tail3_def gc_def cc_def
    by (simp add: create_plan_def Let_def provision_events_def dm_def b_def cl_def)
  have 2: "\<forall>x\<in>set R. \<not> is_create_cluster x"
    unfolding R_def tail3_def gc_def
    by (auto simp: auth_events_def send_events_def is_create_cluster_def)
  from 1 2 show ?thesis unfolding dm_def by (auto simp: is_create_cluster_def)
qed


lemma create_trace_split:
  assumes run: "create K H a \<lparr>docker = w, trace = []\<rparr> = (r, s)"
      and split: "trace s = before @ ev # after"
  shows "\<exists>rest. create_plan K H a w = before @ ev # (after @ rest)"
proof -
  let ?p = "create_plan K H a w"
  from create_run [OF run] obtain n where n: "trace s = take n ?p" by blast
  define rest where "rest = drop n ?p"
  have "take n ?p @ rest = ?p" unfolding rest_def by (rule append_take_drop_id)
  moreover have "take n ?p = before @ ev # after" using n split by simp
  ultimately have "(before @ ev # after) @ rest = ?p" by (simp only:)
  then have "?p = before @ ev # (after @ rest)" by simp
  then show ?thesis by blast
qed

text \<open>
  C2. Every run of \<open>create\<close> starts with the query of the existing cluster ids.
  A call that provisions (\<open>create_cluster\<close>, or the start of a container) is made only
  when the requested id is not among the ids the daemon holds at that query, and after
  the check; the calls before \<open>create_cluster\<close> are the query, the check, and the three
  calls that prepare the workspace, so nothing but the check stands between a request
  and the allocation. When the id is among them, the run raises, makes no provisioning
  call and leaves the containers as they were.
\<close>

theorem create_checks_id_before_provisioning:
  assumes run: "create K H a \<lparr>docker = w, trace = []\<rparr> = (r, s)"
  shows "(\<exists>rest. trace s = Existing_cluster_ids # rest)
       \<and> (\<forall>before ev after. trace s = before @ ev # after \<and> is_provisioning ev \<longrightarrow>
             cluster_id a \<notin> set (cluster_ids_of K w)
             \<and> take 2 before =
                 [Existing_cluster_ids,
                  Check_cluster_id_unique (cluster_id a) (cluster_ids_of K w)]
             \<and> (is_create_cluster ev \<longrightarrow>
                  before =
                    [Existing_cluster_ids,
                     Check_cluster_id_unique (cluster_id a) (cluster_ids_of K w),
                     Mkdir (path_join (workspace_dir a) ''ssh''),
                     Write_key_pair (path_join (path_join (workspace_dir a) ''ssh'') ''id_rsa.pub'')
                       (path_join (path_join (workspace_dir a) ''ssh'') ''id_rsa''),
                     Get_install_variant (variant a) (installer a) (workspace_dir a)
                       (get_doctor_message K (command_path K ''doctor''))]))
       \<and> (cluster_id a \<in> set (cluster_ids_of K w) \<longrightarrow>
             (\<exists>e. r = Inl e) \<and> docker s = w \<and> (\<forall>ev\<in>set (trace s). \<not> is_provisioning ev)
             \<and> (raises H [] Existing_cluster_ids = None \<longrightarrow>
                  r = Inl (BadParameter (''A cluster with the id '' @ cluster_id a
                                         @ '' already exists.''))
                  \<and> trace s =
                      [Existing_cluster_ids,
                       Check_cluster_id_unique (cluster_id a) (cluster_ids_of K w)]))"
proof -
  let ?p = "create_plan K H a w"
  let ?ids = "cluster_ids_of K w"
  let ?pre = "[Existing_cluster_ids,
        Check_cluster_id_unique (cluster_id a) ?ids,
        Mkdir (path_join (workspace_dir a) ''ssh''),
        Write_key_pair (path_join (path_join (workspace_dir a) ''ssh'') ''id_rsa.pub'')
          (path_join (path_join (workspace_dir a) ''ssh'') ''id_rsa''),
        Get_install_variant (variant a) (installer a) (workspace_dir a)
          (get_doctor_message K (command_path K ''doctor''))]"
  from create_plan_head [of K H a w] obtain c R where
    p: "?p = ?pre @ c # R" and c: "is_create_cluster c" and R: "\<forall>x\<in>set R. \<not> is_create_cluster x"
    by blast
  have pre: "\<forall>x\<in>set ?pre. \<not> is_provisioning x"
    by (simp add: is_provisioning_def is_create_cluster_def is_start_def)
  then have pre': "\<forall>x\<in>set ?pre. \<not> is_create_cluster x"
    by (simp add: is_provisioning_def)
  have taken: "(\<exists>e. r = Inl e) \<and> docker s = w \<and> (\<forall>ev\<in>set (trace s). \<not> is_provisioning ev)
             \<and> (raises H [] Existing_cluster_ids = None \<longrightarrow>
                  r = Inl (BadParameter (''A cluster with the id '' @ cluster_id a
                                         @ '' already exists.''))
                  \<and> trace s = [Existing_cluster_ids, Check_cluster_id_unique (cluster_id a) ?ids])"
    if "cluster_id a \<in> set ?ids"
    using create_id_taken [OF that, of H "[]"] run
    by (auto simp: is_provisioning_def is_create_cluster_def is_start_def split: option.splits)
  have 1: "\<exists>rest. trace s = Existing_cluster_ids # rest"
  proof -
    from create_run [OF run] obtain n where n: "0 < n" "trace s = take n ?p" by blast
    then obtain m where "n = Suc m" by (cases n) auto
    with n(2) p show ?thesis by simp
  qed
  have 2: "cluster_id a \<notin> set ?ids
             \<and> take 2 before = [Existing_cluster_ids, Check_cluster_id_unique (cluster_id a) ?ids]
             \<and> (is_create_cluster ev \<longrightarrow> before = ?pre)"
    if split: "trace s = before @ ev # after" and ev: "is_provisioning ev" for before ev after
  proof -
    from create_trace_split [OF run split] obtain rest where
      e: "?p = before @ ev # (after @ rest)" by blast
    have "ev \<in> set (trace s)" using split by simp
    with taken ev have a: "cluster_id a \<notin> set ?ids" by blast
    from e p have e': "?pre @ (c # R) = before @ ev # (after @ rest)" by simp
    from split_after_prefix [OF e', of is_provisioning] pre ev
    obtain b where b: "before = ?pre @ b" by blast
    then have t: "take 2 before = [Existing_cluster_ids, Check_cluster_id_unique (cluster_id a) ?ids]"
      by simp
    have "before = ?pre" if "is_create_cluster ev"
      using split_unique [OF e', of is_create_cluster] pre' R that by blast
    with a t show ?thesis by blast
  qed
  from 1 2 taken show ?thesis by blast
qed


theorem create_checks_id_before_provisioning_witness:
  "cluster_id args0 \<notin> set (cluster_ids_of K0 [])
   \<and> take 2 (trace (snd (create K0 H0 args0 s0))) =
        [Existing_cluster_ids, Check_cluster_id_unique ''test1'' []]
   \<and> is_create_cluster (trace (snd (create K0 H0 args0 s0)) ! 5)
   \<and> fst (create K0 H0 args0 \<lparr>docker = docker (snd (create K0 H0 args0 s0)), trace = []\<rparr>) =
        Inl (BadParameter ''A cluster with the id test1 already exists.'')
   \<and> docker (snd (create K0 H0 args0 \<lparr>docker = docker (snd (create K0 H0 args0 s0)), trace = []\<rparr>)) =
        docker (snd (create K0 H0 args0 s0))"
proof -
  let ?t = "trace (snd (create K0 H0 args0 s0))"
  let ?w1 = "docker (snd (create K0 H0 args0 s0))"
  let ?s1 = "\<lparr>docker = ?w1, trace = []\<rparr>"
  have run: "create K0 H0 args0 \<lparr>docker = [], trace = []\<rparr>
      = (fst (create K0 H0 args0 s0), snd (create K0 H0 args0 s0))"
    by (simp add: s0_def)
  have len: "length ?t = 14" by code_simp
  have cc: "is_create_cluster (?t ! 5)" by code_simp
  then have prov: "is_provisioning (?t ! 5)" by (simp add: is_provisioning_def)
  have split: "?t = take 5 ?t @ (?t ! 5) # drop 6 ?t"
    using id_take_nth_drop [of 5 ?t] len by simp
  from create_checks_id_before_provisioning [OF run] split prov
  have 1: "cluster_id args0 \<notin> set (cluster_ids_of K0 [])
      \<and> take 2 (take 5 ?t) =
          [Existing_cluster_ids, Check_cluster_id_unique (cluster_id args0) (cluster_ids_of K0 [])]"
    by blast
  have ids0: "cluster_ids_of K0 [] = []" "cluster_id args0 = ''test1''" by code_simp+
  have run2: "create K0 H0 args0 ?s1 = (fst (create K0 H0 args0 ?s1), snd (create K0 H0 args0 ?s1))"
    by simp
  have taken: "cluster_id args0 \<in> set (cluster_ids_of K0 ?w1)" by code_simp
  have nr: "raises H0 [] Existing_cluster_ids = None" by (simp add: H0_def never_raises_def)
  from create_checks_id_before_provisioning [OF run2] taken nr
  have 2: "fst (create K0 H0 args0 ?s1) =
        Inl (BadParameter (''A cluster with the id '' @ cluster_id args0 @ '' already exists.''))
      \<and> docker (snd (create K0 H0 args0 ?s1)) = ?w1"
    by blast
  from 1 2 cc show ?thesis by (simp add: ids0)
qed

subsection \<open>The size of a cluster\<close>

lemma digit_char_facts:
  assumes "d < 10"
  shows "is_digit (digit_char d)" "digit_val (digit_char d) = d"
    "digit_char d \<noteq> CHR ''-''" "digit_char d \<noteq> CHR ''+''" "\<not> is_space (digit_char d)"
proof -
  have o: "(of_char (digit_char d) :: nat) = 48 + d"
    using assms by (simp add: digit_char_def)
  show "is_digit (digit_char d)" using o assms by (simp add: is_digit_def)
  show "digit_val (digit_char d) = d" using o by (simp add: digit_val_def)
  have "(of_char (CHR ''-'') :: nat) = 45" "(of_char (CHR ''+'') :: nat) = 43" by simp_all
  with o show "digit_char d \<noteq> CHR ''-''" "digit_char d \<noteq> CHR ''+''" by auto
  have "\<And>c. is_space c \<Longrightarrow> (of_char c :: nat) \<le> 32"
    by (auto simp: is_space_def)
  with o show "\<not> is_space (digit_char d)" by fastforce
qed

lemma show_nat_digits: "show_nat n \<noteq> [] \<and> list_all is_digit (show_nat n)"
proof (induction n rule: show_nat.induct)
  case (1 n)
  show ?case
  proof (cases "n < 10")
    case True
    then show ?thesis using digit_char_facts(1) [of n] by (subst (1 2) show_nat.simps) simp
  next
    case False
    then have "n mod 10 < 10" by simp
    with False 1 digit_char_facts(1) [of "n mod 10"] show ?thesis
      by (subst (1 2) show_nat.simps) simp
  qed
qed

lemma parse_digits_all:
  "list_all is_digit xs \<Longrightarrow>
     parse_digits acc xs = Some (foldl (\<lambda>a c. 10 * a + digit_val c) acc xs)"
  by (induction xs arbitrary: acc) auto

lemma foldl_show_nat: "foldl (\<lambda>a c. 10 * a + digit_val c) 0 (show_nat n) = n"
proof (induction n rule: show_nat.induct)
  case (1 n)
  show ?case
  proof (cases "n < 10")
    case True
    then show ?thesis using digit_char_facts(2) [of n] by (subst show_nat.simps) simp
  next
    case False
    then have m: "n mod 10 < 10" by simp
    from False 1 have "foldl (\<lambda>a c. 10 * a + digit_val c) 0 (show_nat (n div 10)) = n div 10"
      by simp
    with False digit_char_facts(2) [OF m] show ?thesis by (subst show_nat.simps) simp
  qed
qed

lemma parse_nat_show_nat: "parse_nat (show_nat n) = Some n"
proof -
  from show_nat_digits [of n] obtain c cs where s: "show_nat n = c # cs"
    and d: "is_digit c" "list_all is_digit cs"
    by (cases "show_nat n") auto
  have "parse_nat (show_nat n) = parse_digits (digit_val c) cs" using s d by (simp add: parse_nat_def)
  also have "\<dots> = Some (foldl (\<lambda>a c. 10 * a + digit_val c) (digit_val c) cs)"
    using parse_digits_all [OF d(2)] by simp
  also have "foldl (\<lambda>a c. 10 * a + digit_val c) (digit_val c) cs
      = foldl (\<lambda>a c. 10 * a + digit_val c) 0 (show_nat n)" using s by simp
  finally show ?thesis using foldl_show_nat [of n] by simp
qed

lemma strip_id:
  assumes "s \<noteq> []" "\<not> is_space (hd s)" "\<not> is_space (last s)"
  shows "strip s = s"
proof -
  have 1: "dropWhile is_space s = s" using assms(1,2) by (cases s) auto
  have dw: "\<And>xs. xs \<noteq> [] \<Longrightarrow> \<not> is_space (hd xs) \<Longrightarrow> dropWhile is_space xs = xs"
  proof -
    fix xs :: string assume "xs \<noteq> []" "\<not> is_space (hd xs)"
    then show "dropWhile is_space xs = xs" by (cases xs) auto
  qed
  have "rev s \<noteq> []" "hd (rev s) = last s" using assms(1) by (simp_all add: hd_rev)
  with assms(3) have 2: "dropWhile is_space (rev s) = rev s" by (intro dw) simp_all
  show ?thesis by (simp add: strip_def 1 2)
qed

lemma show_nat_ends:
  "\<not> is_space (hd (show_nat n)) \<and> \<not> is_space (last (show_nat n))
   \<and> hd (show_nat n) \<noteq> CHR ''-'' \<and> hd (show_nat n) \<noteq> CHR ''+''"
proof -
  have d: "\<And>c. is_digit c \<Longrightarrow> \<not> is_space c \<and> c \<noteq> CHR ''-'' \<and> c \<noteq> CHR ''+''"
    by (auto simp: is_digit_def is_space_def)
  from show_nat_digits [of n] have "is_digit (hd (show_nat n))" "is_digit (last (show_nat n))"
    by (cases "show_nat n"; simp add: list_all_iff)+
  with d show ?thesis by blast
qed

lemma py_int_show_int: "py_int (show_int n) = Some n"
proof (cases "n < 0")
  case True
  let ?m = "nat (- n)"
  have s: "show_int n = CHR ''-'' # show_nat ?m" using True by (simp add: show_int_def)
  have "\<not> is_space (CHR ''-'')" by (simp add: is_space_def)
  moreover have "last (CHR ''-'' # show_nat ?m) = last (show_nat ?m)"
    using show_nat_digits [of ?m] by simp
  ultimately have "strip (show_int n) = show_int n"
    unfolding s using show_nat_ends [of ?m] by (intro strip_id) simp_all
  then show ?thesis using True by (simp add: py_int_def s parse_nat_show_nat)
next
  case False
  let ?m = "nat n"
  have s: "show_int n = show_nat ?m" using False by (simp add: show_int_def)
  obtain c cs where c: "show_nat ?m = c # cs" using show_nat_digits [of ?m]
    by (cases "show_nat ?m") auto
  have st: "strip (show_nat ?m) = show_nat ?m"
    using show_nat_digits [of ?m] show_nat_ends [of ?m] by (intro strip_id) simp_all
  from show_nat_ends [of ?m] c have "c \<noteq> CHR ''-''" "c \<noteq> CHR ''+''" by simp_all
  then have "py_int (show_nat ?m) = map_option int (parse_nat (show_nat ?m))"
    using st c by (simp add: py_int_def)
  then show ?thesis using False by (simp add: s parse_nat_show_nat)
qed

lemma honest_extends:
  assumes "honest H c" "c s = (r, s')"
  shows "\<exists>evs. trace s' = trace s @ evs"
  using assms unfolding honest_def by blast

lemma raised_last_single:
  assumes "(\<exists>i ids. ev = Check_cluster_id_unique i ids \<and> i \<in> set ids)
             \<or> (\<not> is_check ev \<and> raises H t ev = Some e)"
  shows "raised_last H t e (t @ [ev])"
  unfolding raised_last_def
proof (intro exI conjI)
  show "t @ [ev] = t @ [] @ [ev]" by simp
  show "(\<exists>i ids. ev = Check_cluster_id_unique i ids \<and> i \<in> set ids)
             \<or> (\<not> is_check ev \<and> raises H (t @ []) ev = Some e)" using assms by simp
qed

lemma raised_last_shift:
  assumes "raised_last H (t @ xs) e t'"
  shows "raised_last H t e t'"
proof -
  from assms obtain evs ev where t': "t' = (t @ xs) @ evs @ [ev]"
    and k: "(\<exists>i ids. ev = Check_cluster_id_unique i ids \<and> i \<in> set ids)
             \<or> (\<not> is_check ev \<and> raises H ((t @ xs) @ evs) ev = Some e)"
    unfolding raised_last_def by blast
  show ?thesis unfolding raised_last_def
  proof (intro exI conjI)
    show "t' = t @ (xs @ evs) @ [ev]" using t' by simp
    show "(\<exists>i ids. ev = Check_cluster_id_unique i ids \<and> i \<in> set ids)
             \<or> (\<not> is_check ev \<and> raises H (t @ (xs @ evs)) ev = Some e)" using k by simp
  qed
qed

lemma stops_ret: "stops_on_raise H (ret x)"
  by (simp add: stops_on_raise_def ret_def)

lemma stops_get_docker: "stops_on_raise H get_docker"
  by (simp add: stops_on_raise_def get_docker_def)

lemma stops_call: "\<not> is_check ev \<Longrightarrow> stops_on_raise H (call H ev)"
  unfolding stops_on_raise_def
proof (intro allI impI)
  fix s e s' assume n: "\<not> is_check ev" and c: "call H ev s = (Inl e, s')"
  then have "raises H (trace s) ev = Some e" "trace s' = trace s @ [ev]"
    by (auto simp: call_def split: option.splits)
  with n raised_last_single [of ev H "trace s" e]
  show "raised_last H (trace s) e (trace s')" by simp
qed

lemma stops_check: "stops_on_raise H (check_cluster_id_unique i ids)"
  unfolding stops_on_raise_def
proof (intro allI impI)
  fix s e s' assume c: "check_cluster_id_unique i ids s = (Inl e, s')"
  then have "i \<in> set ids" "trace s' = trace s @ [Check_cluster_id_unique i ids]"
    by (auto simp: check_cluster_id_unique_def split: if_splits)
  with raised_last_single [of "Check_cluster_id_unique i ids" H "trace s" e]
  show "raised_last H (trace s) e (trace s')" by simp
qed

lemma stops_bind:
  assumes h: "honest H c" and c: "stops_on_raise H c" and f: "\<And>x. stops_on_raise H (f x)"
  shows "stops_on_raise H (bind c f)"
  unfolding stops_on_raise_def
proof (intro allI impI)
  fix s e s' assume b: "bind c f s = (Inl e, s')"
  obtain r1 s1 where cs: "c s = (r1, s1)" by (cases "c s")
  show "raised_last H (trace s) e (trace s')"
  proof (cases r1)
    case (Inl e1)
    with b cs have "c s = (Inl e, s')" by (simp add: bind_def)
    with c show ?thesis by (simp add: stops_on_raise_def)
  next
    case (Inr x)
    with b cs have fx: "f x s1 = (Inl e, s')" by (simp add: bind_def)
    from honest_extends [OF h cs] obtain evs1 where e1: "trace s1 = trace s @ evs1" by blast
    from f [of x] fx have "raised_last H (trace s1) e (trace s')"
      by (simp add: stops_on_raise_def)
    then have "raised_last H (trace s @ evs1) e (trace s')" by (simp only: e1)
    then show ?thesis by (rule raised_last_shift)
  qed
qed

lemma stops_for_each:
  assumes "\<And>x. honest H (body x)" "\<And>x. stops_on_raise H (body x)"
  shows "stops_on_raise H (for_each xs body)"
proof (induction xs)
  case Nil
  show ?case by (simp add: stops_ret)
next
  case (Cons x xs)
  have "stops_on_raise H (bind (body x) (\<lambda>_. for_each xs body))"
    by (rule stops_bind [OF assms(1) assms(2)]) (rule Cons.IH)
  then show ?case by simp
qed

lemma stops_start_container: "stops_on_raise H (start_container H c)"
  unfolding start_container_def
proof (rule stops_bind [OF honest_call stops_call])
  show "\<not> is_check (Start_container c)" by (simp add: is_check_def)
  fix x :: string
  show "stops_on_raise H (\<lambda>s. (Inr (), s\<lparr>docker := docker s @ [c]\<rparr>))"
    by (simp add: stops_on_raise_def)
qed

lemma stops_create: "stops_on_raise H (create K H a)"
  unfolding create_def Let_def existing_cluster_ids_def create_cluster_def add_authorized_key_def
    send_files_def
  apply (intro stops_bind stops_for_each stops_call stops_check stops_ret stops_get_docker
      stops_start_container honest_bind honest_for_each honest_call honest_check honest_ret
      honest_get_docker honest_start_container)
       apply (simp_all add: is_check_def)
  done

lemma create_plan_prelude:
  "\<exists>R. create_plan K H a w = create_prelude K a w @ create_cluster_call K a # R
     \<and> (\<forall>x\<in>set R. \<not> is_create_cluster x)"
proof -
  define dm where "dm = get_doctor_message K (command_path K ''doctor'')"
  define b where "b = docker_backend_of K a"
  define cl where "cl = cluster_of b (masters a) (agents a) (public_agents a)"
  define cc where "cc = \<lparr>cc_cluster_id = cluster_id a, cc_transport = transport a\<rparr>"
  define gc where "gc = Get_config cc (extra_config a)
      (returns H (Get_install_variant (variant a) (installer a) (workspace_dir a) dm))
      (security_mode a) (license_key a)"
  define tail3 where "tail3 = [gc,
      Install_dcos_from_path cc (returns H gc) (ip_detect_path K) dm (installer a) (genconf_dir a),
      Run_post_install_steps cl (cluster_id a) (returns H gc) (command_path K ''doctor'')
        (transport a = SSH) (command_path K ''wait'') (wait_for_dcos a)]"
  define R where "R = map Start_container (nodes_of b Master (masters a) @ nodes_of b Agent (agents a)
        @ nodes_of b PublicAgent (public_agents a))
      @ auth_events H cl (path_join (path_join (workspace_dir a) ''ssh'') ''id_rsa.pub'')
      @ send_events cl (copy_to_master a) @ tail3"
  have 1: "create_plan K H a w = create_prelude K a w @ create_cluster_call K a # R"
    unfolding R_def tail3_def gc_def cc_def
    by (simp add: create_plan_def Let_def provision_events_def dm_def b_def cl_def
        create_prelude_def create_cluster_call_def)
  have 2: "\<forall>x\<in>set R. \<not> is_create_cluster x"
    unfolding R_def tail3_def gc_def
    by (auto simp: auth_events_def send_events_def is_create_cluster_def)
  from 1 2 show ?thesis by blast
qed

lemma create_forwards_counts:
  assumes run: "create K H a \<lparr>docker = w, trace = []\<rparr> = (r, s)"
      and split: "trace s = before @ ev # after" and ev: "is_create_cluster ev"
  shows "ev = create_cluster_call K a \<and> before = create_prelude K a w"
proof -
  from create_plan_prelude [of K H a w] obtain R where
    p: "create_plan K H a w = create_prelude K a w @ create_cluster_call K a # R"
    and R: "\<forall>x\<in>set R. \<not> is_create_cluster x" by blast
  from create_run [OF run] obtain n where n: "trace s = take n (create_plan K H a w)" by blast
  define rest where "rest = drop n (create_plan K H a w)"
  have "take n (create_plan K H a w) @ rest = create_plan K H a w"
    unfolding rest_def by (rule append_take_drop_id)
  moreover have "take n (create_plan K H a w) = before @ ev # after" using n split by simp
  ultimately have "(before @ ev # after) @ rest = create_plan K H a w" by (simp only:)
  then have "create_plan K H a w = before @ ev # (after @ rest)" by simp
  then have e: "create_prelude K a w @ create_cluster_call K a # R = before @ ev # (after @ rest)"
    unfolding p .
  have pre: "\<forall>x\<in>set (create_prelude K a w). \<not> is_create_cluster x"
    by (simp add: create_prelude_def is_create_cluster_def)
  from split_unique [OF e, of is_create_cluster] pre R ev show ?thesis by blast
qed

lemma create_reaches_provisioning:
  assumes run: "create K H a \<lparr>docker = w, trace = []\<rparr> = (r, s)"
      and free: "cluster_id a \<notin> set (cluster_ids_of K w)"
      and quiet: "\<forall>i<5. i \<noteq> 1 \<longrightarrow>
                   raises H (take i (create_prelude K a w)) (create_prelude K a w ! i) = None"
  shows "\<exists>after. trace s = create_prelude K a w @ create_cluster_call K a # after"
proof -
  let ?p = "create_plan K H a w"
  let ?pre = "create_prelude K a w"
  from create_plan_prelude [of K H a w] obtain R where
    p: "?p = ?pre @ create_cluster_call K a # R" by blast
  have len: "length ?pre = 5" by (simp add: create_prelude_def)
  from create_run [OF run] obtain n where
    n: "0 < n" "n \<le> length ?p" "trace s = take n ?p" "r = Inr () \<longrightarrow> n = length ?p" by blast
  have six: "6 \<le> n"
  proof (rule ccontr)
    assume "\<not> 6 \<le> n"
    then have n5: "n \<le> 5" by simp
    with n(2) p len have "n \<noteq> length ?p" by simp
    with n(4) obtain e where e: "r = Inl e" by (cases r) auto
    have "stops_on_raise H (create K H a)" by (rule stops_create)
    with run e have "raised_last H [] e (trace s)"
      unfolding stops_on_raise_def by fastforce
    then obtain evs ev where t: "trace s = evs @ [ev]"
      and k: "(\<exists>i ids. ev = Check_cluster_id_unique i ids \<and> i \<in> set ids)
             \<or> (\<not> is_check ev \<and> raises H evs ev = Some e)"
      unfolding raised_last_def by auto
    have tp: "trace s = take n ?pre" using n(3) p n5 len by simp
    from t tp have l: "length evs = n - 1" "n - 1 < 5" using n5 n(1) len
      by (metis One_nat_def diff_Suc_1 length_append_singleton length_take min.absorb2)
         (use n5 n(1) in simp)
    from t tp have ev: "ev = ?pre ! (n - 1)" "evs = take (n - 1) ?pre"
    proof -
      have "take n ?pre = take (n - 1) ?pre @ [?pre ! (n - 1)]"
        using n(1) n5 len by (metis Suc_pred' l(2) len take_Suc_conv_app_nth)
      with t tp have "evs @ [ev] = take (n - 1) ?pre @ [?pre ! (n - 1)]" by simp
      then show "ev = ?pre ! (n - 1)" "evs = take (n - 1) ?pre" by simp_all
    qed
    show False
    proof (cases "n - 1 = 1")
      case True
      then have "ev = Check_cluster_id_unique (cluster_id a) (cluster_ids_of K w)"
        using ev(1) by (simp add: create_prelude_def)
      with k free show False by (auto simp: is_check_def)
    next
      case False
      with quiet l(2) have q: "raises H (take (n - 1) ?pre) (?pre ! (n - 1)) = None" by blast
      have nc: "\<not> (\<exists>i ids. ev = Check_cluster_id_unique i ids \<and> i \<in> set ids)"
      proof -
        have "n - 1 \<in> {0, 2, 3, 4}" using False l(2) by auto
        then show ?thesis using ev(1) by (auto simp: create_prelude_def)
      qed
      from k nc have "raises H evs ev = Some e" by blast
      then have "raises H (take (n - 1) ?pre) (?pre ! (n - 1)) = Some e" by (simp only: ev)
      with q show False by simp
    qed
  qed
  then have "take n ?p = ?pre @ create_cluster_call K a # take (n - 6) R"
    using p len by (simp add: take_Cons')
  with n(3) have "trace s = ?pre @ create_cluster_call K a # take (n - 6) R" by simp
  then show ?thesis by (rule exI)
qed

text \<open>
  C5, as the code has it. The options admit every integer as the number of masters, of
  agents and of public agents, 1 being the default of each: zero agents and zero public
  agents are accepted, and so is a number of masters below 1. \<open>create\<close> hands the
  numbers to \<open>create_cluster\<close> as they are, and whatever the number of masters, a request
  whose id is free reaches \<open>create_cluster\<close> unless one of the calls before it
  raises.
\<close>

theorem cluster_size_options_admit_every_integer:
  "masters_option (Some (show_int n)) = Inr n
   \<and> agents_option (Some (show_int n)) = Inr n
   \<and> public_agents_option (Some (show_int n)) = Inr n
   \<and> masters_option None = Inr 1 \<and> agents_option None = Inr 1
   \<and> public_agents_option None = Inr 1
   \<and> (\<forall>K H a w r s. create K H a \<lparr>docker = w, trace = []\<rparr> = (r, s) \<and> masters a = n \<longrightarrow>
         (\<forall>before ev after. trace s = before @ ev # after \<and> is_create_cluster ev \<longrightarrow>
            ev = Create_cluster (docker_backend_of K a) n (agents a) (public_agents a)
                   (get_doctor_message K (command_path K ''doctor'')))
         \<and> (cluster_id a \<notin> set (cluster_ids_of K w)
              \<and> (\<forall>i<5. i \<noteq> 1 \<longrightarrow>
                    raises H (take i (create_prelude K a w)) (create_prelude K a w ! i) = None)
             \<longrightarrow> (\<exists>after. trace s =
                     create_prelude K a w
                     @ Create_cluster (docker_backend_of K a) n (agents a) (public_agents a)
                         (get_doctor_message K (command_path K ''doctor'')) # after)))"
proof -
  have o: "int_option 1 (Some (show_int n)) = Inr n" "int_option 1 None = Inr 1"
    by (simp_all add: int_option_def INT_convert_def py_int_show_int)
  have c: "(\<forall>before ev after. trace s = before @ ev # after \<and> is_create_cluster ev \<longrightarrow>
            ev = Create_cluster (docker_backend_of K a) n (agents a) (public_agents a)
                   (get_doctor_message K (command_path K ''doctor'')))
         \<and> (cluster_id a \<notin> set (cluster_ids_of K w)
              \<and> (\<forall>i<5. i \<noteq> 1 \<longrightarrow>
                    raises H (take i (create_prelude K a w)) (create_prelude K a w ! i) = None)
             \<longrightarrow> (\<exists>after. trace s =
                     create_prelude K a w
                     @ Create_cluster (docker_backend_of K a) n (agents a) (public_agents a)
                         (get_doctor_message K (command_path K ''doctor'')) # after))"
    if run: "create K H a \<lparr>docker = w, trace = []\<rparr> = (r, s)" and m: "masters a = n"
    for K H a w r s
  proof -
    have cc: "create_cluster_call K a =
        Create_cluster (docker_backend_of K a) n (agents a) (public_agents a)
          (get_doctor_message K (command_path K ''doctor''))"
      using m by (simp add: create_cluster_call_def)
    have 1: "ev = Create_cluster (docker_backend_of K a) n (agents a) (public_agents a)
                   (get_doctor_message K (command_path K ''doctor''))"
      if "trace s = before @ ev # after" "is_create_cluster ev" for before ev after
      using create_forwards_counts [OF run that] cc by simp
    have 2: "\<exists>after. trace s =
                     create_prelude K a w
                     @ Create_cluster (docker_backend_of K a) n (agents a) (public_agents a)
                         (get_doctor_message K (command_path K ''doctor'')) # after"
      if "cluster_id a \<notin> set (cluster_ids_of K w)"
        "\<forall>i<5. i \<noteq> 1 \<longrightarrow>
            raises H (take i (create_prelude K a w)) (create_prelude K a w ! i) = None"
      using create_reaches_provisioning [OF run that] cc by simp
    from 1 2 show ?thesis by blast
  qed
  from o c show ?thesis
    unfolding masters_option_def agents_option_def public_agents_option_def by blast
qed

theorem cluster_size_options_admit_every_integer_witness:
  "agents_option (Some ''0'') = Inr 0
   \<and> public_agents_option (Some ''0'') = Inr 0
   \<and> masters_option (Some ''0'') = Inr 0
   \<and> masters args_no_master = 0
   \<and> trace (snd (create K0 H0 args_no_master s0)) ! 5 =
       Create_cluster (docker_backend_of K0 args_no_master) 0 0 0 ''Try minidcos docker doctor''"
proof -
  let ?s = "snd (create K0 H0 args_no_master s0)"
  have z: "show_int 0 = ''0''" by code_simp
  have run: "create K0 H0 args_no_master \<lparr>docker = [], trace = []\<rparr>
      = (fst (create K0 H0 args_no_master s0), ?s)" by (simp add: s0_def)
  have m: "masters args_no_master = 0" by (simp add: args_no_master_def)
  have free: "cluster_id args_no_master \<notin> set (cluster_ids_of K0 [])" by code_simp
  have quiet: "\<forall>i<5. i \<noteq> 1 \<longrightarrow>
      raises H0 (take i (create_prelude K0 args_no_master []))
        (create_prelude K0 args_no_master [] ! i) = None"
    by (simp add: H0_def never_raises_def)
  have len: "length (create_prelude K0 args_no_master []) = 5" by (simp add: create_prelude_def)
  have v: "agents args_no_master = 0" "public_agents args_no_master = 0"
    "get_doctor_message K0 (command_path K0 ''doctor'') = ''Try minidcos docker doctor''"
    by code_simp+
  note t = cluster_size_options_admit_every_integer [of 0]
  from t have 1: "agents_option (Some ''0'') = Inr 0" "public_agents_option (Some ''0'') = Inr 0"
    "masters_option (Some ''0'') = Inr 0" by (simp_all add: z)
  from t run m free quiet obtain after where
    "trace ?s = create_prelude K0 args_no_master []
       @ Create_cluster (docker_backend_of K0 args_no_master) 0 (agents args_no_master)
           (public_agents args_no_master) (get_doctor_message K0 (command_path K0 ''doctor''))
         # after"
    by blast
  then have "trace ?s ! 5 = Create_cluster (docker_backend_of K0 args_no_master) 0 0 0
      ''Try minidcos docker doctor''"
    using len v by (simp add: nth_append)
  with 1 m show ?thesis by simp
qed

text \<open>
  The option accepts 0 and -1 as the number of masters, and a request for no master
  reaches \<open>create_cluster\<close>: nothing rejects it before provisioning.
\<close>

theorem masters_zero_reaches_create_cluster:
  "masters_option (Some ''0'') = Inr 0
   \<and> masters_option (Some ''-1'') = Inr (- 1)
   \<and> masters args_no_master = 0
   \<and> is_create_cluster (trace (snd (create K0 H0 args_no_master s0)) ! 5)"
  by code_simp

end
